theory Spec2Isabelle
  imports Main
begin

section \<open>Data model of testGenerator.ts\<close>

text \<open>
  The generator works on declaration objects whose classes live in other files
  (declarations.ts, fixtures.ts, runnerConfig.ts). Only the fields that
  \<^verbatim>\<open>generateTests\<close>, \<^verbatim>\<open>filterOnly\<close>, \<^verbatim>\<open>computeWorkerRegistrationHash\<close> and
  \<^verbatim>\<open>serializeConfiguration\<close> read or write are kept: location, ordinal and skip flag are
  never touched by them (\<^verbatim>\<open>_renumber\<close> only assigns ordinals), and the back-reference of a
  run to its test is the position of the run in that test's run list.

  JS strings are modelled as \<^typ>\<open>string\<close>, one character per code unit; the only line
  terminators in that range are line feed and carriage return. Objects are modelled by
  value: every suite and test object occurs once in the tree.
\<close>

datatype error = SyntaxError | TypeError

record Registration =
  scope :: string
  location :: string

text \<open>The two tables of fixtures.ts: \<^verbatim>\<open>registrations\<close> (a Map) and \<^verbatim>\<open>matrix\<close>.\<close>

record 'v Fixtures =
  registrations :: "string \<rightharpoonup> Registration"
  matrix :: "string \<rightharpoonup> 'v list"

type_synonym 'v Configuration = "(string \<times> 'v) list"

record 'v TestRun =
  configuration :: "'v Configuration"
  configurationString :: string
  workerHash :: string

record ('fn, 'v) TestDeclaration =
  title :: string
  fn :: 'fn
  only :: bool
  runs :: "'v TestRun list"

datatype ('fn, 'v) SuiteDeclaration =
  SuiteDecl (suiteTitle: string) (suiteFile: string) (suiteOnly: bool)
    (suites: "('fn, 'v) SuiteDeclaration list")
    (tests: "('fn, 'v) TestDeclaration list")

record RunnerConfig =
  grep :: "string option"
  repeatEach :: nat

text \<open>
  A \<^verbatim>\<open>RegExp\<close> object: the compiled pattern, whether it carries the flag \<^verbatim>\<open>g\<close>, and its
  mutable \<^verbatim>\<open>lastIndex\<close>.
\<close>

record 'r RegExp =
  matcher :: 'r
  global :: bool
  lastIndex :: nat

text \<open>
  What the generator calls but does not define, taken as parameters:
  \<^item> \<open>fixturesForCallback\<close>: the fixture names of a callback, \<open>None\<close> when it throws;
  \<^item> \<open>rerunRegistrations\<close>: the effect of \<^verbatim>\<open>rerunRegistrations(file)\<close> on the two tables;
  \<^item> \<open>sha1hex\<close>: the hex SHA-1 digest of the bytes fed to a hash object;
  \<^item> \<open>render\<close>: the string a fixture value turns into inside a template literal;
  \<^item> \<open>fullTitle\<close>: \<^verbatim>\<open>test.fullTitle()\<close>, from the titles of the enclosing suites
    (outermost first) and the test's own title;
  \<^item> \<open>compile\<close>: \<^verbatim>\<open>new RegExp(pattern, flags)\<close>, \<open>None\<close> when it throws a SyntaxError
    (\<open>flags = None\<close> is \<^verbatim>\<open>undefined\<close>);
  \<^item> \<open>exec\<close>: the regular expression matcher: \<open>exec r s i\<close> searches \<open>s\<close> for the first
    match that starts at index \<open>i\<close> or later and returns the index where it ends.
\<close>

record ('fn, 'v, 'r) Collaborators =
  fixturesForCallback :: "'fn \<Rightarrow> string list option"
  rerunRegistrations :: "string \<Rightarrow> 'v Fixtures \<Rightarrow> 'v Fixtures"
  sha1hex :: "string \<Rightarrow> string"
  render :: "'v \<Rightarrow> string"
  fullTitle :: "string list \<Rightarrow> string \<Rightarrow> string"
  compile :: "string \<Rightarrow> string option \<Rightarrow> 'r option"
  exec :: "'r \<Rightarrow> string \<Rightarrow> nat \<Rightarrow> nat option"

section \<open>Strings\<close>

text \<open>\<^verbatim>\<open>Array.prototype.join\<close> on an array of strings.\<close>

fun joinWith :: "string \<Rightarrow> string list \<Rightarrow> string" where
  "joinWith sep [] = []"
| "joinWith sep [x] = x"
| "joinWith sep (x # y # ys) = x @ sep @ joinWith sep (y # ys)"

definition digitChar :: "nat \<Rightarrow> char" where
  "digitChar d = ''0123456789'' ! d"

text \<open>
  The decimal numeral of a loop counter, as the template literal prints it. The counter
  is a JS number; it is exact and printed in plain decimal for every repeat count a run
  can reach, and is modelled as a natural number.
\<close>

fun decimal :: "nat \<Rightarrow> string" where
  "decimal n = (if n < 10 then [digitChar n] else decimal (n div 10) @ [digitChar (n mod 10)])"

declare decimal.simps [simp del]

section \<open>serializeConfiguration (lines 147-152)\<close>

definition serializeConfiguration ::
  "('fn, 'v, 'r) Collaborators \<Rightarrow> 'v Configuration \<Rightarrow> string" where
  "serializeConfiguration c cfg =
     joinWith '', '' (map (\<lambda>(name, val). name @ ''='' @ render c val) cfg)"

section \<open>computeWorkerRegistrationHash (lines 135-145)\<close>

text \<open>
  The loop over the fixtures, with the bytes fed to the hash object so far as its state.
  \<^verbatim>\<open>registrations.get\<close> yields \<^verbatim>\<open>undefined\<close> for an unknown name, and reading \<^verbatim>\<open>.scope\<close> of it
  throws a TypeError that nothing catches.
\<close>

fun hashUpdates :: "(string \<rightharpoonup> Registration) \<Rightarrow> string \<Rightarrow> string list \<Rightarrow> error + string" where
  "hashUpdates regs fed [] = Inr fed"
| "hashUpdates regs fed (fixture # rest) =
     (case regs fixture of
        None \<Rightarrow> Inl TypeError
      | Some registration \<Rightarrow>
          if scope registration \<noteq> ''worker'' then hashUpdates regs fed rest
          else hashUpdates regs (fed @ location registration) rest)"

definition computeWorkerRegistrationHash ::
  "('fn, 'v, 'r) Collaborators \<Rightarrow> (string \<rightharpoonup> Registration) \<Rightarrow> string list \<Rightarrow> error + string" where
  "computeWorkerRegistrationHash c regs fixtures =
     (case hashUpdates regs [] fixtures of
        Inl e \<Rightarrow> Inl e
      | Inr fed \<Rightarrow> Inr (sha1hex c fed))"

text \<open>
  The specification's reading of the hash input: the locations of the worker-scoped
  registrations of the fixture names, in fixture-list order.
\<close>

definition workerLocations :: "(string \<rightharpoonup> Registration) \<Rightarrow> string list \<Rightarrow> string list" where
  "workerLocations regs fixtures =
     map location (filter (\<lambda>r. scope r = ''worker'') (map (\<lambda>f. the (regs f)) fixtures))"

definition allRegistered :: "(string \<rightharpoonup> Registration) \<Rightarrow> string list \<Rightarrow> bool" where
  "allRegistered regs fixtures = list_all (\<lambda>f. regs f \<noteq> None) fixtures"

section \<open>The configuration matrix (lines 54-71)\<close>

text \<open>
  The loop of lines 57-67 with \<^verbatim>\<open>generatorConfigurations\<close> as its state. An array is always
  truthy, so \<^verbatim>\<open>!values\<close> holds exactly when the name has no entry in \<^verbatim>\<open>matrix\<close>.
\<close>

fun expand :: "(string \<rightharpoonup> 'v list) \<Rightarrow> 'v Configuration list \<Rightarrow> string list \<Rightarrow> 'v Configuration list" where
  "expand m gc [] = gc"
| "expand m gc (name # rest) =
     (case m name of
        None \<Rightarrow> expand m gc rest
      | Some vals \<Rightarrow>
          (let state = (if gc \<noteq> [] then gc else [[]])
           in expand m (concat (map (\<lambda>gen. map (\<lambda>val. gen @ [(name, val)]) vals) state)) rest))"

definition generatorConfigurations ::
  "(string \<rightharpoonup> 'v list) \<Rightarrow> string list \<Rightarrow> 'v Configuration list" where
  "generatorConfigurations m fixtures =
     (let gc = expand m [] fixtures in if gc = [] then [[]] else gc)"

section \<open>Run materialization (lines 73-83)\<close>

definition makeRun ::
  "('fn, 'v, 'r) Collaborators \<Rightarrow> string \<Rightarrow> 'v Configuration \<Rightarrow> nat \<Rightarrow> 'v TestRun" where
  "makeRun c registrationsHash cfg i =
     (let cs = serializeConfiguration c cfg @ ''#repeat-'' @ decimal i @ ''#'';
          wh = registrationsHash @ ''@'' @ cs
      in \<lparr>configuration = cfg, configurationString = cs, workerHash = wh\<rparr>)"

definition testRuns ::
  "('fn, 'v, 'r) Collaborators \<Rightarrow> string \<Rightarrow> 'v Configuration list \<Rightarrow> nat \<Rightarrow> 'v TestRun list" where
  "testRuns c registrationsHash cfgs n =
     concat (map (\<lambda>cfg. map (\<lambda>i. makeRun c registrationsHash cfg i) [0..<n]) cfgs)"

section \<open>The grep pattern (lines 25-29)\<close>

definition lineTerminator :: "char \<Rightarrow> bool" where
  "lineTerminator ch = (ch = CHR 0x0A \<or> ch = CHR 0x0D)"

text \<open>
  The first alternative of \<^verbatim>\<open>/^\/(.*)\/(g|i|)$|.*/\<close> after its leading slash: the rest of the
  input must be a (greedy, hence longest) group 1, a slash, and one of \<^verbatim>\<open>g\<close>, \<^verbatim>\<open>i\<close> or nothing
  up to the end of the input. The last character decides which of the three it is.
\<close>

definition splitTail :: "string \<Rightarrow> (string \<times> string) option" where
  "splitTail r =
     (if r \<noteq> [] \<and> last r = CHR ''/'' then Some (butlast r, [])
      else if 2 \<le> length r \<and> last (butlast r) = CHR ''/'' \<and> (last r = CHR ''g'' \<or> last r = CHR ''i'')
        then Some (butlast (butlast r), [last r])
      else None)"

text \<open>
  \<^verbatim>\<open>config.grep.match(/^\/(.*)\/(g|i|)$|.*/)\<close>: the triple \<^verbatim>\<open>match[0]\<close>, \<^verbatim>\<open>match[1]\<close>, \<^verbatim>\<open>match[2]\<close>
  (\<open>None\<close> for \<^verbatim>\<open>undefined\<close>). Without the flag \<^verbatim>\<open>s\<close> the dot matches no line terminator, and
  without \<^verbatim>\<open>m\<close> the dollar matches at the end of the input only, so the first alternative
  needs an input free of line terminators. The second alternative always matches at index
  0, the longest run of characters that are not line terminators: the match is never null.
\<close>

definition grepMatch :: "string \<Rightarrow> string \<times> string option \<times> string option" where
  "grepMatch s =
     (case s of
        [] \<Rightarrow> ([], None, None)
      | ch # r \<Rightarrow>
          (case (if ch = CHR ''/'' \<and> \<not> list_ex lineTerminator r then splitTail r else None) of
             Some (p, f) \<Rightarrow> (s, Some p, Some f)
           | None \<Rightarrow> (takeWhile (\<lambda>x. \<not> lineTerminator x) s, None, None)))"

text \<open>
  The two arguments of \<^verbatim>\<open>new RegExp(match[1] || match[0], match[2])\<close>: an empty group 1 is
  falsy, as an undefined one is.
\<close>

definition grepArguments :: "string \<Rightarrow> string \<times> string option" where
  "grepArguments s =
     (case grepMatch s of
        (m0, m1, m2) \<Rightarrow>
          ((case m1 of None \<Rightarrow> m0 | Some p \<Rightarrow> if p \<noteq> [] then p else m0), m2))"

text \<open>
  Lines 25-29. \<^verbatim>\<open>config.grep\<close> is falsy when it is undefined or the empty string.
\<close>

definition makeGrep ::
  "('fn, 'v, 'r) Collaborators \<Rightarrow> string option \<Rightarrow> error + 'r RegExp option" where
  "makeGrep c g =
     (case g of
        None \<Rightarrow> Inr None
      | Some s \<Rightarrow>
          if s = [] then Inr None
          else (case grepArguments s of
                  (src, flags) \<Rightarrow>
                    (case compile c src flags of
                       None \<Rightarrow> Inl SyntaxError
                     | Some r \<Rightarrow>
                         Inr (Some \<lparr>matcher = r, global = (flags = Some ''g''), lastIndex = 0\<rparr>))))"

text \<open>
  \<^verbatim>\<open>RegExp.prototype.test\<close>. Without the flag \<^verbatim>\<open>g\<close> the search starts at index 0 and the object
  is left as it is. With it the search starts at \<^verbatim>\<open>lastIndex\<close>, which a match moves to the
  end of the match and a failure resets to 0.
\<close>

definition regExpTest ::
  "('fn, 'v, 'r) Collaborators \<Rightarrow> 'r RegExp \<Rightarrow> string \<Rightarrow> bool \<times> 'r RegExp" where
  "regExpTest c re s =
     (if global re then
        (if length s < lastIndex re then (False, re\<lparr>lastIndex := 0\<rparr>)
         else (case exec c (matcher re) s (lastIndex re) of
                 None \<Rightarrow> (False, re\<lparr>lastIndex := 0\<rparr>)
               | Some e \<Rightarrow> (True, re\<lparr>lastIndex := e\<rparr>)))
      else (exec c (matcher re) s 0 \<noteq> None, re))"

section \<open>generateTests (lines 23-89)\<close>

text \<open>
  Lines 42-83 for one test that passed the filter: the fixtures, the hash, the
  configurations and the runs pushed onto \<^verbatim>\<open>test.runs\<close>.
\<close>

definition resolveFixtures :: "('fn, 'v, 'r) Collaborators \<Rightarrow> 'fn \<Rightarrow> string list" where
  "resolveFixtures c f = (case fixturesForCallback c f of None \<Rightarrow> [] | Some fixtures \<Rightarrow> fixtures)"

definition populate ::
  "('fn, 'v, 'r) Collaborators \<Rightarrow> RunnerConfig \<Rightarrow> 'v Fixtures \<Rightarrow> ('fn, 'v) TestDeclaration
     \<Rightarrow> error + ('fn, 'v) TestDeclaration" where
  "populate c config fx test =
     (let fixtures = resolveFixtures c (fn test)
      in case computeWorkerRegistrationHash c (registrations fx) fixtures of
           Inl e \<Rightarrow> Inl e
         | Inr registrationsHash \<Rightarrow>
             Inr (test\<lparr>runs := runs test @
                    testRuns c registrationsHash (generatorConfigurations (matrix fx) fixtures)
                      (repeatEach config)\<rparr>))"

text \<open>
  The body of the loop over the tests (lines 40-83), with the \<^verbatim>\<open>RegExp\<close> object threaded
  through: \<open>path\<close> holds the titles of the enclosing suites.
\<close>

definition generateTest ::
  "('fn, 'v, 'r) Collaborators \<Rightarrow> RunnerConfig \<Rightarrow> 'v Fixtures \<Rightarrow> string list \<Rightarrow> 'r RegExp option
     \<Rightarrow> ('fn, 'v) TestDeclaration \<Rightarrow> error + ('r RegExp option \<times> ('fn, 'v) TestDeclaration)" where
  "generateTest c config fx path g test =
     (case g of
        None \<Rightarrow> map_sum id (Pair None) (populate c config fx test)
      | Some re \<Rightarrow>
          (case regExpTest c re (fullTitle c path (title test)) of
             (matched, re') \<Rightarrow>
               if \<not> matched then Inr (Some re', test)
               else map_sum id (Pair (Some re')) (populate c config fx test)))"

fun generateTestList ::
  "('fn, 'v, 'r) Collaborators \<Rightarrow> RunnerConfig \<Rightarrow> 'v Fixtures \<Rightarrow> string list \<Rightarrow> 'r RegExp option
     \<Rightarrow> ('fn, 'v) TestDeclaration list \<Rightarrow> error + ('r RegExp option \<times> ('fn, 'v) TestDeclaration list)" where
  "generateTestList c config fx path g [] = Inr (g, [])"
| "generateTestList c config fx path g (test # rest) =
     (case generateTest c config fx path g test of
        Inl e \<Rightarrow> Inl e
      | Inr (g1, test') \<Rightarrow>
          (case generateTestList c config fx path g1 rest of
             Inl e \<Rightarrow> Inl e
           | Inr (g2, rest') \<Rightarrow> Inr (g2, test' # rest')))"

text \<open>
  Modelled from the spec: \<^verbatim>\<open>_allTests()\<close>, which is not part of the given source. The
  specification has every test of the suite's tree visited once; the walk here takes the
  child suites in order and then the suite's own tests, and returns the tree with the runs
  pushed onto its tests.
\<close>

fun generateSuite ::
  "('fn, 'v, 'r) Collaborators \<Rightarrow> RunnerConfig \<Rightarrow> 'v Fixtures \<Rightarrow> string list \<Rightarrow> 'r RegExp option
     \<Rightarrow> ('fn, 'v) SuiteDeclaration \<Rightarrow> error + ('r RegExp option \<times> ('fn, 'v) SuiteDeclaration)"
and generateSuiteList ::
  "('fn, 'v, 'r) Collaborators \<Rightarrow> RunnerConfig \<Rightarrow> 'v Fixtures \<Rightarrow> string list \<Rightarrow> 'r RegExp option
     \<Rightarrow> ('fn, 'v) SuiteDeclaration list \<Rightarrow> error + ('r RegExp option \<times> ('fn, 'v) SuiteDeclaration list)" where
  "generateSuite c config fx path g (SuiteDecl t f ex ss ts) =
     (case generateSuiteList c config fx (path @ [t]) g ss of
        Inl e \<Rightarrow> Inl e
      | Inr (g1, ss') \<Rightarrow>
          (case generateTestList c config fx (path @ [t]) g1 ts of
             Inl e \<Rightarrow> Inl e
           | Inr (g2, ts') \<Rightarrow> Inr (g2, SuiteDecl t f ex ss' ts')))"
| "generateSuiteList c config fx path g [] = Inr (g, [])"
| "generateSuiteList c config fx path g (s # rest) =
     (case generateSuite c config fx path g s of
        Inl e \<Rightarrow> Inl e
      | Inr (g1, s') \<Rightarrow>
          (case generateSuiteList c config fx path g1 rest of
             Inl e \<Rightarrow> Inl e
           | Inr (g2, rest') \<Rightarrow> Inr (g2, s' # rest')))"

text \<open>
  The loop over the files' suites (lines 31-86): the tables are rebuilt for the suite's
  file, then its tests are populated.
\<close>

fun generateFiles ::
  "('fn, 'v, 'r) Collaborators \<Rightarrow> RunnerConfig \<Rightarrow> 'v Fixtures \<Rightarrow> 'r RegExp option
     \<Rightarrow> ('fn, 'v) SuiteDeclaration list \<Rightarrow> error + ('fn, 'v) SuiteDeclaration list" where
  "generateFiles c config fx g [] = Inr []"
| "generateFiles c config fx g (suite # rest) =
     (let fx1 = rerunRegistrations c (suiteFile suite) fx
      in case generateSuite c config fx1 [] g suite of
           Inl e \<Rightarrow> Inl e
         | Inr (g1, suite') \<Rightarrow>
             (case generateFiles c config fx1 g1 rest of
                Inl e \<Rightarrow> Inl e
              | Inr rest' \<Rightarrow> Inr (suite' # rest')))"

section \<open>filterOnly (lines 91-100)\<close>

text \<open>
  The function prunes the suite in place and returns whether it did; the model returns
  the flag and the suite as the call leaves it. A child is visited (and pruned) before
  its flag is looked at.
\<close>

fun filterOnly :: "('fn, 'v) SuiteDeclaration \<Rightarrow> bool \<times> ('fn, 'v) SuiteDeclaration" where
  "filterOnly (SuiteDecl t f ex ss ts) =
     (let visited = map filterOnly ss;
          onlySuites = map snd (filter (\<lambda>(kept, child). kept \<or> suiteOnly child) visited);
          onlyTests = filter only ts
      in if onlySuites \<noteq> [] \<or> onlyTests \<noteq> []
         then (True, SuiteDecl t f ex onlySuites onlyTests)
         else (False, SuiteDecl t f ex (map snd visited) ts))"

declare filterOnly.simps [simp del]

text \<open>
  \<^verbatim>\<open>generateTests\<close>: the root suite \<^verbatim>\<open>new SuiteDeclaration('')\<close>, a fresh suite with the empty
  title, no file, no tests and no exclusivity mark, receives the populated suites and is
  pruned; \<open>fx\<close> is the state of the two tables when the call starts.
\<close>

definition generateTests ::
  "('fn, 'v, 'r) Collaborators \<Rightarrow> 'v Fixtures \<Rightarrow> ('fn, 'v) SuiteDeclaration list \<Rightarrow> RunnerConfig
     \<Rightarrow> error + ('fn, 'v) SuiteDeclaration" where
  "generateTests c fx suiteList config =
     (case makeGrep c (grep config) of
        Inl e \<Rightarrow> Inl e
      | Inr g \<Rightarrow>
          (case generateFiles c config fx g suiteList of
             Inl e \<Rightarrow> Inl e
           | Inr populated \<Rightarrow> Inr (snd (filterOnly (SuiteDecl [] [] False populated [])))))"

section \<open>Notions used by the properties\<close>

text \<open>The filter decision of line 40 for one test, and what it means for a title to match.\<close>

definition passesGrep ::
  "('fn, 'v, 'r) Collaborators \<Rightarrow> string list \<Rightarrow> 'r RegExp option \<Rightarrow> ('fn, 'v) TestDeclaration \<Rightarrow> bool" where
  "passesGrep c path g test =
     (case g of None \<Rightarrow> True | Some re \<Rightarrow> fst (regExpTest c re (fullTitle c path (title test))))"

definition titleMatches :: "('fn, 'v, 'r) Collaborators \<Rightarrow> 'r RegExp \<Rightarrow> string \<Rightarrow> bool" where
  "titleMatches c re s = (exec c (matcher re) s 0 \<noteq> None)"

text \<open>The \<^verbatim>\<open>RegExp\<close> object as the filter of line 40 leaves it.\<close>

definition grepAfter ::
  "('fn, 'v, 'r) Collaborators \<Rightarrow> string list \<Rightarrow> 'r RegExp option \<Rightarrow> ('fn, 'v) TestDeclaration
     \<Rightarrow> 'r RegExp option" where
  "grepAfter c path g test =
     (case g of None \<Rightarrow> None | Some re \<Rightarrow> Some (snd (regExpTest c re (fullTitle c path (title test)))))"

text \<open>The domains of the generator fixtures among the fixture names, in list order.\<close>

definition domains :: "(string \<rightharpoonup> 'v list) \<Rightarrow> string list \<Rightarrow> 'v list list" where
  "domains m fixtures = List.map_filter m fixtures"

text \<open>The runs a pass pushed onto a test that held \<open>before\<close> when the pass began.\<close>

definition appended :: "'v TestRun list \<Rightarrow> ('fn, 'v) TestDeclaration \<Rightarrow> 'v TestRun list" where
  "appended before test = drop (length before) (runs test)"

fun stripRuns :: "('fn, 'v) SuiteDeclaration \<Rightarrow> ('fn, 'v) SuiteDeclaration" where
  "stripRuns (SuiteDecl t f ex ss ts) =
     SuiteDecl t f ex (map stripRuns ss) (map (\<lambda>test. test\<lparr>runs := []\<rparr>) ts)"

text \<open>
  \<open>appendRuns s new\<close>: the tree \<open>s\<close> with, pushed onto the run list of each of its tests, the
  runs that the test at the same place of the tree \<open>new\<close> holds.
\<close>

fun appendTestRuns ::
  "('fn, 'v) TestDeclaration list \<Rightarrow> ('fn, 'v) TestDeclaration list \<Rightarrow> ('fn, 'v) TestDeclaration list" where
  "appendTestRuns [] fresh = []"
| "appendTestRuns (test # rest) [] = test # rest"
| "appendTestRuns (test # rest) (new # fresh) =
     test\<lparr>runs := runs test @ runs new\<rparr> # appendTestRuns rest fresh"

fun appendRuns :: "('fn, 'v) SuiteDeclaration \<Rightarrow> ('fn, 'v) SuiteDeclaration \<Rightarrow> ('fn, 'v) SuiteDeclaration"
and appendRunsList ::
  "('fn, 'v) SuiteDeclaration list \<Rightarrow> ('fn, 'v) SuiteDeclaration list \<Rightarrow> ('fn, 'v) SuiteDeclaration list" where
  "appendRuns (SuiteDecl t f ex ss ts) new =
     SuiteDecl t f ex (appendRunsList ss (suites new)) (appendTestRuns ts (tests new))"
| "appendRunsList [] fresh = []"
| "appendRunsList (s # rest) [] = s # rest"
| "appendRunsList (s # rest) (new # fresh) = appendRuns s new # appendRunsList rest fresh"

fun allTests :: "('fn, 'v) SuiteDeclaration \<Rightarrow> ('fn, 'v) TestDeclaration list" where
  "allTests (SuiteDecl t f ex ss ts) = concat (map allTests ss) @ ts"

text \<open>The suites below a suite, the suite itself left out.\<close>

fun subSuites :: "('fn, 'v) SuiteDeclaration \<Rightarrow> ('fn, 'v) SuiteDeclaration list" where
  "subSuites (SuiteDecl t f ex ss ts) = concat (map (\<lambda>s. s # subSuites s) ss)"

definition exclusiveTests :: "('fn, 'v) SuiteDeclaration \<Rightarrow> ('fn, 'v) TestDeclaration list" where
  "exclusiveTests s = filter only (allTests s)"

text \<open>A tree that is a single path of suites ending in a single test.\<close>

fun chain :: "('fn, 'v) SuiteDeclaration \<Rightarrow> bool" where
  "chain (SuiteDecl t f ex ss ts) =
     (case ss of
        [] \<Rightarrow> length ts = 1
      | [child] \<Rightarrow> ts = [] \<and> chain child
      | _ \<Rightarrow> False)"

fun sublistOf :: "'a list \<Rightarrow> 'a list \<Rightarrow> bool" where
  "sublistOf [] ys = True"
| "sublistOf (x # xs) [] = False"
| "sublistOf (x # xs) (y # ys) = ((x = y \<and> sublistOf xs ys) \<or> sublistOf (x # xs) ys)"

text \<open>
  \<open>prunedFrom r s\<close>: the tree \<open>r\<close> is the tree \<open>s\<close> with some of its suites and tests left
  out, the remaining ones in their order.
\<close>

fun prunedFrom :: "('fn, 'v) SuiteDeclaration \<Rightarrow> ('fn, 'v) SuiteDeclaration \<Rightarrow> bool"
and prunedList :: "('fn, 'v) SuiteDeclaration list \<Rightarrow> ('fn, 'v) SuiteDeclaration list \<Rightarrow> bool" where
  "prunedFrom (SuiteDecl t f ex rs rt) (SuiteDecl t' f' ex' ss ts) =
     (t = t' \<and> f = f' \<and> ex = ex' \<and> prunedList rs ss \<and> sublistOf rt ts)"
| "prunedList [] ss = True"
| "prunedList (r # rs) [] = False"
| "prunedList (r # rs) (s # ss) = ((prunedFrom r s \<and> prunedList rs ss) \<or> prunedList (r # rs) ss)"

text \<open>
  \<open>delimited s p f\<close>: the input \<open>s\<close> has the form \<^verbatim>\<open>/p/f\<close> with \<open>f\<close> one of the flags that the
  pattern of line 27 admits.
\<close>

definition delimited :: "string \<Rightarrow> string \<Rightarrow> string \<Rightarrow> bool" where
  "delimited s p f = (s = CHR ''/'' # p @ CHR ''/'' # f \<and> (f = [] \<or> f = ''g'' \<or> f = ''i''))"

text \<open>
  Every suite below \<open>s\<close> that is marked exclusive has an exclusive test somewhere in it.
\<close>

definition onlySuitesHoldOnlyTests :: "('fn, 'v) SuiteDeclaration \<Rightarrow> bool" where
  "onlySuitesHoldOnlyTests s =
     list_all (\<lambda>child. suiteOnly child \<longrightarrow> exclusiveTests child \<noteq> []) (subSuites s)"

section \<open>Concrete collaborators for the examples\<close>

text \<open>
  A matcher for patterns made of lower-case letters, digits and blanks only, which a
  JS regular expression matches as a substring: \<open>searchAt p s k\<close> looks for \<open>p\<close> in \<open>s\<close>,
  whose first character stands at index \<open>k\<close>. The pattern \<^verbatim>\<open>(\<close>, an unterminated group, is
  a SyntaxError in JS; the examples use no other pattern outside the fragment.
\<close>

fun searchAt :: "string \<Rightarrow> string \<Rightarrow> nat \<Rightarrow> nat option" where
  "searchAt p [] k = (if p = [] then Some k else None)"
| "searchAt p (x # xs) k =
     (if take (length p) (x # xs) = p then Some (k + length p) else searchAt p xs (Suc k))"

definition literalCompile :: "string \<Rightarrow> string option \<Rightarrow> string option" where
  "literalCompile src flags =
     (if list_all (\<lambda>ch. ch \<in> set ''abcdefghijklmnopqrstuvwxyz0123456789 '') src then Some src else None)"

definition literalExec :: "string \<Rightarrow> string \<Rightarrow> nat \<Rightarrow> nat option" where
  "literalExec p s i = searchAt p (drop i s) i"

text \<open>
  A callback is represented by what its resolution yields, a fixture value by its
  rendering, and the digest by a tagged copy of the bytes; the tables are the same for
  every file and titles are joined by a blank.
\<close>

definition exampleCollaborators :: "(string list option, string, string) Collaborators" where
  "exampleCollaborators =
     \<lparr>fixturesForCallback = (\<lambda>f. f),
      rerunRegistrations = (\<lambda>file fx. fx),
      sha1hex = (\<lambda>bytes. ''sha1:'' @ bytes),
      render = (\<lambda>v. v),
      fullTitle = (\<lambda>path t. joinWith '' '' (path @ [t])),
      compile = literalCompile,
      exec = literalExec\<rparr>"

text \<open>
  The tables of the specification's end-to-end example, with a fixture \<open>empty\<close> of no
  values added: \<open>browser\<close> has two values, \<open>page\<close> is worker-scoped at location \<open>L\<close>.
\<close>

definition exampleFixtures :: "string Fixtures" where
  "exampleFixtures =
     \<lparr>registrations =
        [''browser'' \<mapsto> \<lparr>scope = ''test'', location = ''B''\<rparr>,
         ''page'' \<mapsto> \<lparr>scope = ''worker'', location = ''L''\<rparr>,
         ''empty'' \<mapsto> \<lparr>scope = ''test'', location = ''E''\<rparr>],
      matrix = [''browser'' \<mapsto> [''chromium'', ''firefox''], ''empty'' \<mapsto> []]\<rparr>"

definition exampleTest :: "string \<Rightarrow> string list option \<Rightarrow> bool \<Rightarrow> (string list option, string) TestDeclaration" where
  "exampleTest t f ex = \<lparr>title = t, fn = f, only = ex, runs = []\<rparr>"

text \<open>
  A suite with the tests \<open>foo\<close> and \<open>bar\<close>, and the same suite after a pass with the filter
  \<^verbatim>\<open>foo\<close> and one repeat.
\<close>

definition grepExampleSuite :: "(string list option, string) SuiteDeclaration" where
  "grepExampleSuite =
     SuiteDecl ''A'' ''a.ts'' False []
       [exampleTest ''foo'' (Some []) False, exampleTest ''bar'' (Some []) False]"

definition grepExamplePopulated :: "(string list option, string) SuiteDeclaration" where
  "grepExamplePopulated =
     SuiteDecl ''A'' ''a.ts'' False []
       [\<lparr>title = ''foo'', fn = Some [], only = False,
          runs = [\<lparr>configuration = [], configurationString = ''#repeat-0#'',
                   workerHash = ''sha1:@#repeat-0#''\<rparr>]\<rparr>,
        \<lparr>title = ''bar'', fn = Some [], only = False, runs = []\<rparr>]"

section \<open>Auxiliary lemmas\<close>

subsection \<open>Decimal numerals\<close>






subsection \<open>The configuration matrix and the runs\<close>

lemma length_product_step:
  "length (concat (map (\<lambda>gen. map (\<lambda>val. gen @ [(name, val)]) vals) state)) = length state * length vals"
  by (induction state) simp_all

lemma expand_length:
  "gc \<noteq> [] \<Longrightarrow> list_all (\<lambda>vals. vals \<noteq> []) (domains m fixtures) \<Longrightarrow>
     length (expand m gc fixtures) = length gc * prod_list (map length (domains m fixtures))"
proof (induction fixtures arbitrary: gc)
  case Nil
  then show ?case by (simp add: domains_def List.map_filter_simps)
next
  case (Cons name rest)
  show ?case
  proof (cases "m name")
    case None
    with Cons show ?thesis by (simp add: domains_def List.map_filter_simps)
  next
    case (Some vals)
    with Cons.prems have v: "vals \<noteq> []" and r: "list_all (\<lambda>vals. vals \<noteq> []) (domains m rest)"
      by (simp_all add: domains_def List.map_filter_simps)
    let ?next = "concat (map (\<lambda>gen. map (\<lambda>val. gen @ [(name, val)]) vals) gc)"
    have len: "length ?next = length gc * length vals" by (rule length_product_step)
    with v Cons.prems(1) have ne: "?next \<noteq> []" by (metis length_0_conv mult_is_0)
    from Cons.IH [OF ne r] len Some Cons.prems(1) show ?thesis
      by (simp add: domains_def List.map_filter_simps)
  qed
qed

lemma expand_from_empty:
  "(let gc = expand m [] fixtures in if gc = [] then [[]] else gc) =
   (let gc = expand m [[]] fixtures in if gc = [] then [[]] else gc)"
  by (induction fixtures) (simp_all split: option.splits)

lemma generatorConfigurations_alt:
  "generatorConfigurations m fixtures =
     (let gc = expand m [[]] fixtures in if gc = [] then [[]] else gc)"
  unfolding generatorConfigurations_def by (rule expand_from_empty)

lemma generatorConfigurations_nonempty: "generatorConfigurations m fixtures \<noteq> []"
  by (simp add: generatorConfigurations_def Let_def)

lemma generatorConfigurations_length:
  assumes "list_all (\<lambda>vals. vals \<noteq> []) (domains m fixtures)"
  shows "length (generatorConfigurations m fixtures) = prod_list (map length (domains m fixtures))"
proof -
  have "length (expand m [[]] fixtures) = prod_list (map length (domains m fixtures))"
    using expand_length [of "[[]]" m fixtures] assms by simp
  moreover have "expand m [[]] fixtures \<noteq> []"
  proof
    assume "expand m [[]] fixtures = []"
    with calculation have "prod_list (map length (domains m fixtures)) = 0" by simp
    then have "0 \<in> set (map length (domains m fixtures))" by (simp add: prod_list_zero_iff)
    with assms show False by (auto simp: list_all_iff)
  qed
  ultimately show ?thesis by (simp add: generatorConfigurations_alt Let_def)
qed

lemma testRuns_length: "length (testRuns c h cfgs n) = length cfgs * n"
  unfolding testRuns_def by (induction cfgs) simp_all

subsection \<open>The worker hash\<close>

lemma hashUpdates_registered:
  "allRegistered regs fixtures \<Longrightarrow>
     hashUpdates regs fed fixtures = Inr (fed @ concat (workerLocations regs fixtures))"
  by (induction fixtures arbitrary: fed) (auto simp: allRegistered_def workerLocations_def)

lemma hashUpdates_unregistered:
  "\<not> allRegistered regs fixtures \<Longrightarrow> hashUpdates regs fed fixtures = Inl TypeError"
  by (induction fixtures arbitrary: fed) (auto simp: allRegistered_def split: option.splits)

lemma computeWorkerRegistrationHash_eq:
  "computeWorkerRegistrationHash c regs fixtures =
     (if allRegistered regs fixtures then Inr (sha1hex c (concat (workerLocations regs fixtures)))
      else Inl TypeError)"
  by (simp add: computeWorkerRegistrationHash_def hashUpdates_registered hashUpdates_unregistered)


subsection \<open>One test\<close>

lemma populate_eq:
  "populate c config fx test =
     (if allRegistered (registrations fx) (resolveFixtures c (fn test))
      then Inr (test\<lparr>runs := runs test @
             testRuns c (sha1hex c (concat (workerLocations (registrations fx) (resolveFixtures c (fn test)))))
               (generatorConfigurations (matrix fx) (resolveFixtures c (fn test))) (repeatEach config)\<rparr>)
      else Inl TypeError)"
  by (simp add: populate_def Let_def computeWorkerRegistrationHash_eq)

lemma generateTest_passes:
  "passesGrep c path g test \<Longrightarrow>
     generateTest c config fx path g test =
       map_sum id (Pair (grepAfter c path g test)) (populate c config fx test)"
  by (auto simp: generateTest_def passesGrep_def grepAfter_def split: option.splits prod.splits)

lemma generateTest_fails:
  "\<not> passesGrep c path g test \<Longrightarrow>
     generateTest c config fx path g test = Inr (grepAfter c path g test, test)"
  by (auto simp: generateTest_def passesGrep_def grepAfter_def split: option.splits prod.splits)

lemma expand_append: "expand m gc (xs @ ys) = expand m (expand m gc xs) ys"
  by (induction xs arbitrary: gc) (simp_all split: option.splits)

lemma concat_map_nil: "concat (map (\<lambda>gen. []) gc) = []"
  by (induction gc) simp_all

lemma expand_empty_domain:
  "m name = Some [] \<Longrightarrow> expand m gc (before @ name # rest) = expand m [] rest"
  by (simp add: expand_append concat_map_nil)

lemma expand_no_generators: "domains m fixtures = [] \<Longrightarrow> expand m gc fixtures = gc"
  by (induction fixtures arbitrary: gc)
    (auto simp: domains_def List.map_filter_simps split: option.splits)

lemma populate_gains:
  assumes "passesGrep c path g test"
    and "allRegistered (registrations fx) (resolveFixtures c (fn test))"
  shows "\<exists>g' test'. generateTest c config fx path g test = Inr (g', test')
           \<and> take (length (runs test)) (runs test') = runs test
           \<and> repeatEach config \<le> length (appended (runs test) test')"
proof -
  let ?cfgs = "generatorConfigurations (matrix fx) (resolveFixtures c (fn test))"
  have "?cfgs \<noteq> []" by (rule generatorConfigurations_nonempty)
  then have "1 \<le> length ?cfgs" by (cases ?cfgs) simp_all
  then have "1 * repeatEach config \<le> length ?cfgs * repeatEach config"
    by (rule mult_le_mono1)
  then have "repeatEach config \<le> length (testRuns c h ?cfgs (repeatEach config))" for h
    by (simp add: testRuns_length)
  with assms show ?thesis
    by (simp add: generateTest_passes populate_eq appended_def)
qed

subsection \<open>The example collaborators\<close>

lemma exampleFixtures_simps:
  "registrations exampleFixtures ''browser'' = Some \<lparr>scope = ''test'', location = ''B''\<rparr>"
  "registrations exampleFixtures ''page'' = Some \<lparr>scope = ''worker'', location = ''L''\<rparr>"
  "registrations exampleFixtures ''empty'' = Some \<lparr>scope = ''test'', location = ''E''\<rparr>"
  "matrix exampleFixtures ''browser'' = Some [''chromium'', ''firefox'']"
  "matrix exampleFixtures ''page'' = None"
  "matrix exampleFixtures ''empty'' = Some []"
  by (simp_all add: exampleFixtures_def)

lemma exampleCollaborators_simps:
  "fixturesForCallback exampleCollaborators f = f"
  "rerunRegistrations exampleCollaborators file fx = fx"
  "sha1hex exampleCollaborators bytes = ''sha1:'' @ bytes"
  "render exampleCollaborators v = v"
  "fullTitle exampleCollaborators path t = joinWith '' '' (path @ [t])"
  "compile exampleCollaborators = literalCompile"
  "exec exampleCollaborators = literalExec"
  by (simp_all add: exampleCollaborators_def)

subsection \<open>The only-filter\<close>

lemma filterOnly_suiteOnly: "suiteOnly (snd (filterOnly s)) = suiteOnly s"
  by (cases s) (simp add: filterOnly.simps Let_def)

lemma exclusiveTests_SuiteDecl:
  "exclusiveTests (SuiteDecl t f ex ss ts) = concat (map exclusiveTests ss) @ filter only ts"
  by (simp add: exclusiveTests_def [abs_def] filter_concat comp_def)

lemma holds_SuiteDecl:
  "onlySuitesHoldOnlyTests (SuiteDecl t f ex ss ts) =
     (\<forall>child \<in> set ss. (suiteOnly child \<longrightarrow> exclusiveTests child \<noteq> []) \<and> onlySuitesHoldOnlyTests child)"
  by (auto simp: onlySuitesHoldOnlyTests_def list_all_iff)

lemma kept_children:
  "(\<And>child. child \<in> set ss \<Longrightarrow> (fst (filterOnly child) \<or> suiteOnly child) = (exclusiveTests child \<noteq> [])) \<Longrightarrow>
     map snd (filter (\<lambda>(kept, child). kept \<or> suiteOnly child) (map filterOnly ss)) =
     map (\<lambda>child. snd (filterOnly child)) (filter (\<lambda>child. exclusiveTests child \<noteq> []) ss)"
proof (induction ss)
  case Nil
  then show ?case by simp
next
  case (Cons child rest)
  have "(fst (filterOnly child) \<or> suiteOnly child) = (exclusiveTests child \<noteq> [])"
    by (rule Cons.prems) simp
  moreover have "map snd (filter (\<lambda>(kept, child). kept \<or> suiteOnly child) (map filterOnly rest)) =
     map (\<lambda>child. snd (filterOnly child)) (filter (\<lambda>child. exclusiveTests child \<noteq> []) rest)"
    by (rule Cons.IH) (simp add: Cons.prems)
  ultimately show ?case
    by (cases "filterOnly child") (auto simp: filterOnly_suiteOnly [of child, symmetric])
qed

lemma filterOnly_unfold:
  "filterOnly (SuiteDecl t f ex ss ts) =
     (if map snd (filter (\<lambda>(kept, child). kept \<or> suiteOnly child) (map filterOnly ss)) \<noteq> []
         \<or> filter only ts \<noteq> []
      then (True, SuiteDecl t f ex
              (map snd (filter (\<lambda>(kept, child). kept \<or> suiteOnly child) (map filterOnly ss)))
              (filter only ts))
      else (False, SuiteDecl t f ex (map (\<lambda>child. snd (filterOnly child)) ss) ts))"
  by (simp add: filterOnly.simps Let_def comp_def)

lemma filterOnly_children:
  assumes "\<And>child. child \<in> set ss \<Longrightarrow>
             (fst (filterOnly child) \<or> suiteOnly child) = (exclusiveTests child \<noteq> [])"
  shows "filterOnly (SuiteDecl t f ex ss ts) =
     (if filter (\<lambda>child. exclusiveTests child \<noteq> []) ss \<noteq> [] \<or> filter only ts \<noteq> []
      then (True, SuiteDecl t f ex
              (map (\<lambda>child. snd (filterOnly child)) (filter (\<lambda>child. exclusiveTests child \<noteq> []) ss))
              (filter only ts))
      else (False, SuiteDecl t f ex (map (\<lambda>child. snd (filterOnly child)) ss) ts))"
proof -
  note kept = kept_children [OF assms]
  show ?thesis
    by (subst filterOnly_unfold, simp only: kept) simp
qed

lemma filterOnly_survives:
  "onlySuitesHoldOnlyTests s \<Longrightarrow> fst (filterOnly s) = (exclusiveTests s \<noteq> [])"
proof (induction s)
  case (SuiteDecl t f ex ss ts)
  have child: "(fst (filterOnly child) \<or> suiteOnly child) = (exclusiveTests child \<noteq> [])"
    if "child \<in> set ss" for child
    using that SuiteDecl.IH [of child] SuiteDecl.prems by (auto simp: holds_SuiteDecl)
  show ?case
    by (auto simp: filterOnly_children [OF child] exclusiveTests_SuiteDecl filter_empty_conv)
qed

lemma filterOnly_keeps_exclusive_tests:
  "onlySuitesHoldOnlyTests s \<Longrightarrow> exclusiveTests s \<noteq> [] \<Longrightarrow>
     allTests (snd (filterOnly s)) = exclusiveTests s"
proof (induction s)
  case (SuiteDecl t f ex ss ts)
  have holds: "onlySuitesHoldOnlyTests child" if "child \<in> set ss" for child
    using that SuiteDecl.prems(1) by (simp add: holds_SuiteDecl)
  have child: "(fst (filterOnly child) \<or> suiteOnly child) = (exclusiveTests child \<noteq> [])"
    if "child \<in> set ss" for child
    using that filterOnly_survives [OF holds] SuiteDecl.prems(1) by (auto simp: holds_SuiteDecl)
  have "concat (map (\<lambda>child. allTests (snd (filterOnly child)))
          (filter (\<lambda>child. exclusiveTests child \<noteq> []) ss)) = concat (map exclusiveTests ss)"
    using SuiteDecl.IH holds
  proof (induction ss)
    case Nil
    then show ?case by simp
  next
    case (Cons a ss)
    then show ?case by auto
  qed
  moreover have "fst (filterOnly (SuiteDecl t f ex ss ts))"
    using filterOnly_survives [OF SuiteDecl.prems(1)] SuiteDecl.prems(2) by simp
  ultimately show ?case
    by (auto simp: filterOnly_children [OF child] exclusiveTests_SuiteDecl comp_def)
qed

lemma one_nonempty:
  "length (concat (map f xs)) = 1 \<Longrightarrow>
     \<exists>x. filter (\<lambda>x. f x \<noteq> []) xs = [x] \<and> length (f x) = 1 \<and> x \<in> set xs"
proof (induction xs)
  case Nil
  then show ?case by simp
next
  case (Cons a xs)
  show ?case
  proof (cases "f a = []")
    case True
    with Cons show ?thesis by auto
  next
    case False
    then have "1 \<le> length (f a)" by (cases "f a") simp_all
    moreover from Cons.prems have "length (f a) + length (concat (map f xs)) = 1" by simp
    ultimately have one: "length (f a) = 1" and "length (concat (map f xs)) = 0" by arith+
    then have "concat (map f xs) = []" by simp
    then have "filter (\<lambda>x. f x \<noteq> []) xs = []" by (auto simp: filter_empty_conv)
    with False \<open>length (f a) = 1\<close> show ?thesis by simp
  qed
qed

lemma filterOnly_chain:
  "onlySuitesHoldOnlyTests s \<Longrightarrow> length (exclusiveTests s) = 1 \<Longrightarrow> chain (snd (filterOnly s))"
proof (induction s)
  case (SuiteDecl t f ex ss ts)
  have holds: "onlySuitesHoldOnlyTests child" if "child \<in> set ss" for child
    using that SuiteDecl.prems(1) by (simp add: holds_SuiteDecl)
  have child: "(fst (filterOnly child) \<or> suiteOnly child) = (exclusiveTests child \<noteq> [])"
    if "child \<in> set ss" for child
    using that filterOnly_survives [OF holds] SuiteDecl.prems(1) by (auto simp: holds_SuiteDecl)
  from SuiteDecl.prems(2)
  have total: "length (concat (map exclusiveTests ss)) + length (filter only ts) = 1"
    by (simp add: exclusiveTests_SuiteDecl)
  show ?case
  proof (cases "filter only ts = []")
    case True
    with total have "length (concat (map exclusiveTests ss)) = 1" by simp
    from one_nonempty [OF this] obtain c where
      c: "filter (\<lambda>x. exclusiveTests x \<noteq> []) ss = [c]" "length (exclusiveTests c) = 1" "c \<in> set ss"
      by blast
    from SuiteDecl.IH [OF c(3) holds [OF c(3)] c(2)] have "chain (snd (filterOnly c))" .
    with True c(1) show ?thesis
      by (simp add: filterOnly_children [OF child])
  next
    case False
    then have "1 \<le> length (filter only ts)" by (cases "filter only ts") simp_all
    with total have one: "length (filter only ts) = 1"
      and "length (concat (map exclusiveTests ss)) = 0"
      by arith+
    then have "concat (map exclusiveTests ss) = []" by simp
    then have "filter (\<lambda>x. exclusiveTests x \<noteq> []) ss = []" by (auto simp: filter_empty_conv)
    with False one show ?thesis
      by (simp add: filterOnly_children [OF child])
  qed
qed

lemma sublistOf_refl: "sublistOf xs xs"
  by (induction xs) simp_all

lemma sublistOf_filter: "sublistOf (filter P xs) xs"
proof (induction xs)
  case Nil
  then show ?case by simp
next
  case (Cons x xs)
  then show ?case by (cases "filter P xs") auto
qed

lemma prunedList_filter:
  "(\<And>child. child \<in> set ss \<Longrightarrow> prunedFrom (snd (filterOnly child)) child) \<Longrightarrow>
     prunedList (map snd (filter P (map filterOnly ss))) ss"
proof (induction ss)
  case Nil
  then show ?case by simp
next
  case (Cons a ss)
  then have rest: "prunedList (map snd (filter P (map filterOnly ss))) ss" by simp
  from Cons.prems have a: "prunedFrom (snd (filterOnly a)) a" by simp
  show ?case
  proof (cases "P (filterOnly a)")
    case True
    with rest a show ?thesis by simp
  next
    case False
    with rest show ?thesis by (cases "map snd (filter P (map filterOnly ss))") simp_all
  qed
qed

lemma prunedList_all:
  "(\<And>child. child \<in> set ss \<Longrightarrow> prunedFrom (snd (filterOnly child)) child) \<Longrightarrow>
     prunedList (map (\<lambda>child. snd (filterOnly child)) ss) ss"
  by (induction ss) simp_all

lemma filterOnly_pruned: "prunedFrom (snd (filterOnly s)) s"
proof (induction s)
  case (SuiteDecl t f ex ss ts)
  then show ?case
    unfolding filterOnly_unfold
    by (simp add: prunedList_filter prunedList_all sublistOf_filter sublistOf_refl)
qed

lemma filterOnly_untouched:
  "exclusiveTests s = [] \<Longrightarrow> list_all (\<lambda>child. \<not> suiteOnly child) (subSuites s) \<Longrightarrow>
     filterOnly s = (False, s)"
proof (induction s)
  case (SuiteDecl t f ex ss ts)
  have child: "filterOnly child = (False, child) \<and> \<not> suiteOnly child" if "child \<in> set ss" for child
    using that SuiteDecl by (auto simp: exclusiveTests_SuiteDecl list_all_iff)
  then have visited: "map filterOnly ss = map (Pair False) ss"
    by simp
  have "filter (\<lambda>(kept, child). kept \<or> suiteOnly child) (map (Pair False) ss) = []"
    using child by (auto simp: filter_empty_conv)
  moreover have "filter only ts = []"
    using SuiteDecl.prems(1) by (simp add: exclusiveTests_SuiteDecl)
  moreover have "map (\<lambda>child. snd (filterOnly child)) ss = ss"
    using child by (simp add: map_idI)
  ultimately show ?case
    unfolding filterOnly_unfold visited by simp
qed

subsection \<open>The grep pattern\<close>

lemma splitTail_delimited:
  "(f = [] \<or> f = ''g'' \<or> f = ''i'') \<Longrightarrow> splitTail (p @ CHR ''/'' # f) = Some (p, f)"
  by (auto simp: splitTail_def butlast_append)

lemma splitTail_Some:
  assumes "splitTail r = Some (p, f)"
  shows "r = p @ CHR ''/'' # f \<and> (f = [] \<or> f = ''g'' \<or> f = ''i'')"
proof (cases "r \<noteq> [] \<and> last r = CHR ''/''")
  case True
  with assms have "p = butlast r" and "f = []" by (simp_all add: splitTail_def)
  with True show ?thesis by (metis append_butlast_last_id)
next
  case False
  with assms have len: "2 \<le> length r" and sl: "last (butlast r) = CHR ''/''"
    and fl: "last r = CHR ''g'' \<or> last r = CHR ''i''"
    and p: "p = butlast (butlast r)" and f: "f = [last r]"
    by (auto simp: splitTail_def split: if_splits)
  from len have "r \<noteq> []" and "butlast r \<noteq> []" by (cases r; cases "tl r"; auto)+
  then have "r = butlast (butlast r) @ [last (butlast r)] @ [last r]"
    by (metis append_butlast_last_id append_assoc)
  with sl fl p f show ?thesis by auto
qed

lemma takeWhile_no_lineTerminator:
  "\<not> list_ex lineTerminator s \<Longrightarrow> takeWhile (\<lambda>x. \<not> lineTerminator x) s = s"
  by (simp add: takeWhile_eq_all_conv list_ex_iff)

lemma grepArguments_delimited:
  assumes "\<not> list_ex lineTerminator s" and "delimited s p f" and "p \<noteq> []"
  shows "grepArguments s = (p, Some f)"
proof -
  from assms(2) have s: "s = CHR ''/'' # (p @ CHR ''/'' # f)" and f: "f = [] \<or> f = ''g'' \<or> f = ''i''"
    by (simp_all add: delimited_def)
  from assms(1) s have "\<not> list_ex lineTerminator (p @ CHR ''/'' # f)" by simp
  with splitTail_delimited [OF f, of p] assms(3) show ?thesis
    by (subst s) (simp add: grepArguments_def grepMatch_def)
qed

lemma grepArguments_plain:
  assumes "\<not> list_ex lineTerminator s" and "\<forall>p f. \<not> delimited s p f"
  shows "grepArguments s = (s, None)"
proof (cases s)
  case Nil
  then show ?thesis by (simp add: grepArguments_def grepMatch_def)
next
  case (Cons ch r)
  have "splitTail r = None" if "ch = CHR ''/''"
  proof (rule ccontr)
    assume "splitTail r \<noteq> None"
    then obtain p f where "splitTail r = Some (p, f)" by auto
    from splitTail_Some [OF this] that Cons have "delimited s p f" by (simp add: delimited_def)
    with assms(2) show False by blast
  qed
  with Cons takeWhile_no_lineTerminator [OF assms(1)] show ?thesis
    by (auto simp: grepArguments_def grepMatch_def)
qed

lemma makeGrep_nonempty:
  "s \<noteq> [] \<Longrightarrow> grepArguments s = (src, flags) \<Longrightarrow>
     makeGrep c (Some s) =
       (case compile c src flags of
          None \<Rightarrow> Inl SyntaxError
        | Some r \<Rightarrow> Inr (Some \<lparr>matcher = r, global = (flags = Some ''g''), lastIndex = 0\<rparr>))"
  by (simp add: makeGrep_def)

lemma regExpTest_not_global:
  "\<not> global re \<Longrightarrow> regExpTest c re s = (titleMatches c re s, re)"
  by (simp add: regExpTest_def titleMatches_def)

subsection \<open>A pass over a tree whose tests hold runs already\<close>

lemma generateTest_stripped_error:
  "generateTest c config fx path g (test\<lparr>runs := []\<rparr>) = Inl e \<Longrightarrow>
     generateTest c config fx path g test = Inl e"
  by (auto simp: generateTest_def populate_def Let_def split: option.splits prod.splits sum.splits if_splits)

lemma generateTest_stripped_result:
  "generateTest c config fx path g (test\<lparr>runs := []\<rparr>) = Inr (g', new) \<Longrightarrow>
     generateTest c config fx path g test = Inr (g', test\<lparr>runs := runs test @ runs new\<rparr>)"
  by (auto simp: generateTest_def populate_def Let_def split: option.splits prod.splits sum.splits if_splits)

lemma generateTestList_stripped:
  "generateTestList c config fx path g ts =
     map_sum id (map_prod id (appendTestRuns ts))
       (generateTestList c config fx path g (map (\<lambda>test. test\<lparr>runs := []\<rparr>) ts))"
proof (induction ts arbitrary: g)
  case Nil
  then show ?case by simp
next
  case (Cons test rest)
  show ?case
  proof (cases "generateTest c config fx path g (test\<lparr>runs := []\<rparr>)")
    case (Inl e)
    with generateTest_stripped_error [OF Inl] show ?thesis by simp
  next
    case (Inr res)
    obtain g1 new where res: "res = (g1, new)" by (cases res)
    note first = generateTest_stripped_result [OF Inr [unfolded res]]
    show ?thesis
    proof (cases "generateTestList c config fx path g1 (map (\<lambda>test. test\<lparr>runs := []\<rparr>) rest)")
      case (Inl e)
      with Cons.IH [of g1] first Inr res show ?thesis by simp
    next
      case (Inr res')
      with Cons.IH [of g1] first \<open>generateTest c config fx path g (test\<lparr>runs := []\<rparr>) = Inr res\<close> res
      show ?thesis by (cases res') simp
    qed
  qed
qed

lemma generateSuiteList_stripped:
  assumes "\<And>s g. s \<in> set ss \<Longrightarrow>
     generateSuite c config fx path g s =
       map_sum id (map_prod id (appendRuns s)) (generateSuite c config fx path g (stripRuns s))"
  shows "generateSuiteList c config fx path g ss =
     map_sum id (map_prod id (appendRunsList ss))
       (generateSuiteList c config fx path g (map stripRuns ss))"
  using assms
proof (induction ss arbitrary: g)
  case Nil
  then show ?case by simp
next
  case (Cons s rest)
  have first: "generateSuite c config fx path g s =
       map_sum id (map_prod id (appendRuns s)) (generateSuite c config fx path g (stripRuns s))"
    by (rule Cons.prems) simp
  have others: "generateSuiteList c config fx path g1 rest =
     map_sum id (map_prod id (appendRunsList rest))
       (generateSuiteList c config fx path g1 (map stripRuns rest))" for g1
    by (rule Cons.IH) (simp add: Cons.prems)
  show ?case
  proof (cases "generateSuite c config fx path g (stripRuns s)")
    case (Inl e)
    with first show ?thesis by simp
  next
    case (Inr res)
    obtain g1 new where res: "res = (g1, new)" by (cases res)
    show ?thesis
    proof (cases "generateSuiteList c config fx path g1 (map stripRuns rest)")
      case (Inl e)
      with others [of g1] first \<open>generateSuite c config fx path g (stripRuns s) = Inr res\<close> res
      show ?thesis by simp
    next
      case (Inr res')
      with others [of g1] first \<open>generateSuite c config fx path g (stripRuns s) = Inr res\<close> res
      show ?thesis by (cases res') simp
    qed
  qed
qed

lemma generateSuite_stripped:
  "generateSuite c config fx path g s =
     map_sum id (map_prod id (appendRuns s)) (generateSuite c config fx path g (stripRuns s))"
proof (induction s arbitrary: path g)
  case (SuiteDecl t f ex ss ts)
  have children: "generateSuiteList c config fx (path @ [t]) g ss =
     map_sum id (map_prod id (appendRunsList ss))
       (generateSuiteList c config fx (path @ [t]) g (map stripRuns ss))"
    by (rule generateSuiteList_stripped) (rule SuiteDecl.IH)
  show ?case
  proof (cases "generateSuiteList c config fx (path @ [t]) g (map stripRuns ss)")
    case (Inl e)
    with children show ?thesis by simp
  next
    case (Inr res)
    obtain g1 ss' where res: "res = (g1, ss')" by (cases res)
    note own = generateTestList_stripped [of c config fx "path @ [t]" g1 ts]
    show ?thesis
    proof (cases "generateTestList c config fx (path @ [t]) g1 (map (\<lambda>test. test\<lparr>runs := []\<rparr>) ts)")
      case (Inl e)
      with children own Inr res show ?thesis by simp
    next
      case (Inr res')
      with children own \<open>generateSuiteList c config fx (path @ [t]) g (map stripRuns ss) = Inr res\<close> res
      show ?thesis by (cases res') simp
    qed
  qed
qed

lemma suiteFile_stripRuns: "suiteFile (stripRuns s) = suiteFile s"
  by (cases s) simp

lemma generateFiles_stripped:
  "generateFiles c config fx g suiteList =
     map_sum id (appendRunsList suiteList) (generateFiles c config fx g (map stripRuns suiteList))"
proof (induction suiteList arbitrary: fx g)
  case Nil
  then show ?case by simp
next
  case (Cons suite rest)
  let ?fx = "rerunRegistrations c (suiteFile suite) fx"
  note first = generateSuite_stripped [of c config ?fx "[]" g suite]
  show ?case
  proof (cases "generateSuite c config ?fx [] g (stripRuns suite)")
    case (Inl e)
    with first show ?thesis by (simp add: suiteFile_stripRuns Let_def)
  next
    case (Inr res)
    obtain g1 new where res: "res = (g1, new)" by (cases res)
    show ?thesis
    proof (cases "generateFiles c config ?fx g1 (map stripRuns rest)")
      case (Inl e)
      with Cons.IH [of ?fx g1] first \<open>generateSuite c config ?fx [] g (stripRuns suite) = Inr res\<close> res
      show ?thesis by (simp add: suiteFile_stripRuns Let_def)
    next
      case (Inr fresh)
      with Cons.IH [of ?fx g1] first \<open>generateSuite c config ?fx [] g (stripRuns suite) = Inr res\<close> res
      show ?thesis by (simp add: suiteFile_stripRuns Let_def)
    qed
  qed
qed

lemma appendTestRuns_strip:
  "map (\<lambda>test. test\<lparr>runs := []\<rparr>) (appendTestRuns ts fresh) = map (\<lambda>test. test\<lparr>runs := []\<rparr>) ts"
  by (induction ts fresh rule: appendTestRuns.induct) simp_all

lemma appendRuns_strip:
  "stripRuns (appendRuns (s :: ('fn, 'v) SuiteDeclaration) new) = stripRuns s"
  "map stripRuns (appendRunsList (ss :: ('fn, 'v) SuiteDeclaration list) fresh) = map stripRuns ss"
  by (induction s new and ss fresh rule: appendRuns_appendRunsList.induct)
    (simp_all add: appendTestRuns_strip)

lemma generateFiles_shape:
  assumes "generateFiles c config fx g suiteList = Inr populated"
  shows "map stripRuns populated = map stripRuns suiteList"
proof (cases "generateFiles c config fx g (map stripRuns suiteList)")
  case (Inl e)
  with assms generateFiles_stripped [of c config fx g suiteList] show ?thesis by simp
next
  case (Inr fresh)
  with assms generateFiles_stripped [of c config fx g suiteList]
  have "populated = appendRunsList suiteList fresh" by simp
  then show ?thesis by (simp add: appendRuns_strip)
qed

subsection \<open>Exclusivity flags and the tests of the pruned tree\<close>

lemma only_flags_stripRuns:
  "map only (allTests (stripRuns s)) = map only (allTests s)"
proof (induction s)
  case (SuiteDecl t f ex ss ts)
  then have eq: "map (\<lambda>child. map only (allTests (stripRuns child))) ss =
      map (\<lambda>child. map only (allTests child)) ss"
    by simp
  have "map only (allTests (stripRuns (SuiteDecl t f ex ss ts))) =
      concat (map (\<lambda>child. map only (allTests (stripRuns child))) ss) @ map only ts"
    by (simp add: map_concat comp_def)
  also have "\<dots> = concat (map (\<lambda>child. map only (allTests child)) ss) @ map only ts"
    by (simp only: eq)
  also have "\<dots> = map only (allTests (SuiteDecl t f ex ss ts))"
    by (simp add: map_concat comp_def)
  finally show ?case .
qed

lemma suiteOnly_stripRuns: "suiteOnly (stripRuns s) = suiteOnly s"
  by (cases s) simp

lemma suite_flags_stripRuns:
  "map suiteOnly (subSuites (stripRuns s)) = map suiteOnly (subSuites s)"
proof (induction s)
  case (SuiteDecl t f ex ss ts)
  then have eq: "map (\<lambda>child. suiteOnly (stripRuns child) # map suiteOnly (subSuites (stripRuns child))) ss =
      map (\<lambda>child. suiteOnly child # map suiteOnly (subSuites child)) ss"
    by (simp add: suiteOnly_stripRuns)
  have "map suiteOnly (subSuites (stripRuns (SuiteDecl t f ex ss ts))) =
      concat (map (\<lambda>child. suiteOnly (stripRuns child) # map suiteOnly (subSuites (stripRuns child))) ss)"
    by (simp add: map_concat comp_def)
  also have "\<dots> = concat (map (\<lambda>child. suiteOnly child # map suiteOnly (subSuites child)) ss)"
    by (simp only: eq)
  also have "\<dots> = map suiteOnly (subSuites (SuiteDecl t f ex ss ts))"
    by (simp add: map_concat comp_def)
  finally show ?case .
qed

lemma exclusiveTests_empty_iff: "exclusiveTests s = [] \<longleftrightarrow> True \<notin> set (map only (allTests s))"
  by (auto simp: exclusiveTests_def filter_empty_conv)

lemma no_exclusive_suite_iff:
  "list_all (\<lambda>child. \<not> suiteOnly child) (subSuites s) \<longleftrightarrow> True \<notin> set (map suiteOnly (subSuites s))"
  by (auto simp: list_all_iff)

lemma no_exclusive_stripRuns:
  assumes "stripRuns a = stripRuns b"
  shows "exclusiveTests a = [] \<longleftrightarrow> exclusiveTests b = []"
    and "list_all (\<lambda>child. \<not> suiteOnly child) (subSuites a) \<longleftrightarrow>
         list_all (\<lambda>child. \<not> suiteOnly child) (subSuites b)"
proof -
  from assms have "map only (allTests a) = map only (allTests b)"
    by (metis only_flags_stripRuns)
  then show "exclusiveTests a = [] \<longleftrightarrow> exclusiveTests b = []"
    by (simp only: exclusiveTests_empty_iff)
  from assms have "map suiteOnly (subSuites a) = map suiteOnly (subSuites b)"
    by (metis suite_flags_stripRuns)
  then show "list_all (\<lambda>child. \<not> suiteOnly child) (subSuites a) \<longleftrightarrow>
         list_all (\<lambda>child. \<not> suiteOnly child) (subSuites b)"
    by (simp only: no_exclusive_suite_iff)
qed

lemma generateTests_no_exclusive:
  assumes "generateTests c fx suiteList config = Inr root"
    and "exclusiveTests (SuiteDecl [] [] False suiteList []) = []"
    and "list_all (\<lambda>child. \<not> suiteOnly child) (subSuites (SuiteDecl [] [] False suiteList []))"
  shows "stripRuns root = SuiteDecl [] [] False (map stripRuns suiteList) []"
proof -
  from assms(1) obtain g populated where
    files: "generateFiles c config fx g suiteList = Inr populated"
    and root: "root = snd (filterOnly (SuiteDecl [] [] False populated []))"
    by (auto simp: generateTests_def split: sum.splits)
  from generateFiles_shape [OF files]
  have same: "stripRuns (SuiteDecl [] [] False populated []) = stripRuns (SuiteDecl [] [] False suiteList [])"
    by simp
  from no_exclusive_stripRuns [OF same] assms(2,3)
  have "filterOnly (SuiteDecl [] [] False populated []) = (False, SuiteDecl [] [] False populated [])"
    by (intro filterOnly_untouched) simp_all
  with root same show ?thesis by simp
qed

lemma testRuns_strings:
  "map configurationString (testRuns c h cfgs n) =
     concat (map (\<lambda>cfg. map (\<lambda>i. serializeConfiguration c cfg @ ''#repeat-'' @ decimal i @ ''#'') [0..<n]) cfgs)"
  by (induction cfgs) (simp_all add: testRuns_def makeRun_def Let_def comp_def)

lemma testRuns_configurations:
  "map configuration (testRuns c h cfgs n) = concat (map (replicate n) cfgs)"
  by (induction cfgs) (simp_all add: testRuns_def makeRun_def Let_def comp_def map_replicate_const)

subsection \<open>Generation depends on the collaborators through what it calls\<close>

lemmas case_congs = sum.case_cong option.case_cong prod.case_cong if_cong

lemma generateTests_collaborators_cong:
  assumes "\<And>f. resolveFixtures c' f = resolveFixtures c f"
    and "rerunRegistrations c' = rerunRegistrations c"
    and "sha1hex c' = sha1hex c"
    and "render c' = render c"
    and "fullTitle c' = fullTitle c"
    and "compile c' = compile c"
    and "exec c' = exec c"
  shows "generateTests c' fx suiteList config = generateTests c fx suiteList config"
proof -
  have runs: "testRuns c' h cfgs n = testRuns c h cfgs n" for h cfgs n
    by (simp add: testRuns_def makeRun_def serializeConfiguration_def assms)
  have hash: "computeWorkerRegistrationHash c' regs fixtures = computeWorkerRegistrationHash c regs fixtures"
    for regs fixtures
    by (simp add: computeWorkerRegistrationHash_def assms Let_def cong: case_congs)
  have pop: "populate c' config fx test = populate c config fx test" for fx test
    by (simp add: populate_def runs hash assms Let_def cong: case_congs)
  have re: "regExpTest c' r s = regExpTest c r s" for r s
    by (simp add: regExpTest_def assms Let_def cong: case_congs)
  have one: "generateTest c' config fx path g test = generateTest c config fx path g test"
    for fx path g test
    by (simp add: generateTest_def pop re assms Let_def cong: case_congs)
  have tests: "generateTestList c' config fx path g ts = generateTestList c config fx path g ts"
    for fx path g ts
    by (induction ts arbitrary: g) (simp_all add: one Let_def cong: case_congs)
  have suite: "generateSuite c' config fx path g s = generateSuite c config fx path g s"
    for fx path g s
  proof (induction s arbitrary: path g)
    case (SuiteDecl t f ex ss ts)
    have "generateSuiteList c' config fx (path @ [t]) g ss = generateSuiteList c config fx (path @ [t]) g ss"
      for g
      using SuiteDecl.IH by (induction ss arbitrary: g) (simp_all add: Let_def cong: case_congs)
    then show ?case by (simp add: tests Let_def cong: case_congs)
  qed
  have files: "generateFiles c' config fx g suiteList = generateFiles c config fx g suiteList"
    for fx g
    by (induction suiteList arbitrary: fx g) (simp_all add: suite assms Let_def cong: case_congs)
  have "makeGrep c' (grep config) = makeGrep c (grep config)"
    by (simp add: makeGrep_def assms Let_def cong: case_congs)
  then show ?thesis
    by (simp add: generateTests_def files Let_def cong: case_congs)
qed

subsection \<open>A pass with a filter, worked out\<close>

lemma example_filtered_pass:
  "generateFiles exampleCollaborators \<lparr>grep = Some ''foo'', repeatEach = 1\<rparr> exampleFixtures
     (Some \<lparr>matcher = ''foo'', global = False, lastIndex = 0\<rparr>) [grepExampleSuite]
   = Inr [grepExamplePopulated]"
  and example_filtered_generation:
  "generateTests exampleCollaborators exampleFixtures [grepExampleSuite]
     \<lparr>grep = Some ''foo'', repeatEach = 1\<rparr>
   = Inr (SuiteDecl [] [] False [grepExamplePopulated] [])"
proof -
  let ?re = "\<lparr>matcher = ''foo'', global = False, lastIndex = 0\<rparr>"
  let ?c = exampleCollaborators
  let ?config = "\<lparr>grep = Some ''foo'', repeatEach = 1\<rparr>"
  have m: "makeGrep ?c (Some ''foo'') = Inr (Some ?re)"
    by (simp add: makeGrep_def grepArguments_def grepMatch_def lineTerminator_def
        exampleCollaborators_simps literalCompile_def)
  have first: "regExpTest ?c ?re (fullTitle ?c [''A''] ''foo'') = (True, ?re)"
    by (simp add: regExpTest_def exampleCollaborators_simps literalExec_def)
  have second: "regExpTest ?c ?re (fullTitle ?c [''A''] ''bar'') = (False, ?re)"
    by (simp add: regExpTest_def exampleCollaborators_simps literalExec_def)
  have p: "populate ?c ?config exampleFixtures (exampleTest ''foo'' (Some []) False)
      = Inr \<lparr>title = ''foo'', fn = Some [], only = False,
               runs = [\<lparr>configuration = [], configurationString = ''#repeat-0#'',
                        workerHash = ''sha1:@#repeat-0#''\<rparr>]\<rparr>"
    by (simp add: populate_eq resolveFixtures_def exampleTest_def exampleCollaborators_simps
        allRegistered_def workerLocations_def generatorConfigurations_def testRuns_def
        makeRun_def serializeConfiguration_def decimal.simps digitChar_def Let_def)
  have g1: "generateTest ?c ?config exampleFixtures [''A''] (Some ?re) (exampleTest ''foo'' (Some []) False)
      = Inr (Some ?re, \<lparr>title = ''foo'', fn = Some [], only = False,
               runs = [\<lparr>configuration = [], configurationString = ''#repeat-0#'',
                        workerHash = ''sha1:@#repeat-0#''\<rparr>]\<rparr>)"
    using first p by (simp add: generateTest_def exampleTest_def)
  have g2: "generateTest ?c ?config exampleFixtures [''A''] (Some ?re) (exampleTest ''bar'' (Some []) False)
      = Inr (Some ?re, \<lparr>title = ''bar'', fn = Some [], only = False, runs = []\<rparr>)"
    using second by (simp add: generateTest_def exampleTest_def)
  show files: "generateFiles ?c ?config exampleFixtures (Some ?re) [grepExampleSuite]
      = Inr [grepExamplePopulated]"
    using g1 g2
    by (simp add: grepExampleSuite_def grepExamplePopulated_def exampleCollaborators_simps)
  show "generateTests ?c exampleFixtures [grepExampleSuite] ?config
      = Inr (SuiteDecl [] [] False [grepExamplePopulated] [])"
    using m files
    by (simp add: generateTests_def grepExamplePopulated_def filterOnly.simps Let_def)
qed

subsection \<open>Pruning a tree whose tests hold runs already\<close>

lemma map_eq_zip: "map f xs = map f ys \<Longrightarrow> (x, y) \<in> set (zip xs ys) \<Longrightarrow> f x = f y"
proof (induction xs arbitrary: ys)
  case Nil
  then show ?case by simp
next
  case (Cons a xs)
  then show ?case by (cases ys) auto
qed

lemma suiteOnly_appendRuns: "suiteOnly (appendRuns s new) = suiteOnly s"
  by (cases s) simp

lemma length_appendRunsList: "length (appendRunsList ss fresh) = length ss"
  by (induction ss arbitrary: fresh) (simp, case_tac fresh, simp_all)

lemma filter_only_appendTestRuns:
  "map (\<lambda>test. test\<lparr>runs := []\<rparr>) ts' = map (\<lambda>test. test\<lparr>runs := []\<rparr>) ts \<Longrightarrow>
     filter only (appendTestRuns ts ts') = appendTestRuns (filter only ts) (filter only ts')"
proof (induction ts ts' rule: appendTestRuns.induct)
  case (1 fresh)
  then show ?case by simp
next
  case (2 test rest)
  then show ?case by simp
next
  case (3 test rest new fresh)
  from "3.prems" have "new\<lparr>runs := []\<rparr> = test\<lparr>runs := []\<rparr>" by simp
  then have "only new = only test"
    by (metis TestDeclaration.select_convs(3) TestDeclaration.surjective TestDeclaration.update_convs(4))
  with 3 show ?case by simp
qed

lemma filterOnly_appendRunsList:
  assumes "length ss' = length ss"
    and "\<And>s s'. (s, s') \<in> set (zip ss ss') \<Longrightarrow>
           filterOnly (appendRuns s s') =
             (fst (filterOnly s), appendRuns (snd (filterOnly s)) (snd (filterOnly s')))
           \<and> fst (filterOnly s') = fst (filterOnly s) \<and> suiteOnly s' = suiteOnly s"
  shows "map snd (filter (\<lambda>(kept, child). kept \<or> suiteOnly child) (map filterOnly (appendRunsList ss ss'))) =
         appendRunsList
           (map snd (filter (\<lambda>(kept, child). kept \<or> suiteOnly child) (map filterOnly ss)))
           (map snd (filter (\<lambda>(kept, child). kept \<or> suiteOnly child) (map filterOnly ss')))
       \<and> map (\<lambda>child. snd (filterOnly child)) (appendRunsList ss ss') =
         appendRunsList (map (\<lambda>child. snd (filterOnly child)) ss)
           (map (\<lambda>child. snd (filterOnly child)) ss')"
  using assms
proof (induction ss' ss rule: list_induct2)
  case Nil
  show ?case by simp
next
  case (Cons s' ss' s ss)
  have head: "filterOnly (appendRuns s s') =
             (fst (filterOnly s), appendRuns (snd (filterOnly s)) (snd (filterOnly s')))
           \<and> fst (filterOnly s') = fst (filterOnly s) \<and> suiteOnly s' = suiteOnly s"
    by (rule Cons.prems) simp
  have tail: "\<And>a b. (a, b) \<in> set (zip ss ss') \<Longrightarrow>
           filterOnly (appendRuns a b) =
             (fst (filterOnly a), appendRuns (snd (filterOnly a)) (snd (filterOnly b)))
           \<and> fst (filterOnly b) = fst (filterOnly a) \<and> suiteOnly b = suiteOnly a"
    by (rule Cons.prems) simp
  from head Cons.IH [OF tail] show ?case
    by (cases "filterOnly s"; cases "filterOnly s'")
      (auto simp: suiteOnly_appendRuns filterOnly_suiteOnly [of s, symmetric]
        filterOnly_suiteOnly [of s', symmetric] simp del: filterOnly_suiteOnly)
qed

lemma appendRunsList_Nil_iff: "appendRunsList ss fresh = [] \<longleftrightarrow> ss = []"
  using length_appendRunsList [of ss fresh] by (metis length_0_conv)

lemma appendTestRuns_Nil_iff: "appendTestRuns ts fresh = [] \<longleftrightarrow> ts = []"
  by (cases ts; cases fresh) simp_all

lemma stripRuns_eq_SuiteDecl:
  assumes "stripRuns q = stripRuns (SuiteDecl t f ex ss ts)"
  obtains ss' ts' where "q = SuiteDecl t f ex ss' ts'"
    and "map stripRuns ss' = map stripRuns ss"
    and "map (\<lambda>test. test\<lparr>runs := []\<rparr>) ts' = map (\<lambda>test. test\<lparr>runs := []\<rparr>) ts"
  using assms by (cases q) simp

lemma filterOnly_appendRuns:
  "stripRuns q = stripRuns p \<Longrightarrow>
     filterOnly (appendRuns p q) =
       (fst (filterOnly p), appendRuns (snd (filterOnly p)) (snd (filterOnly q)))
     \<and> fst (filterOnly q) = fst (filterOnly p) \<and> suiteOnly q = suiteOnly p"
proof (induction p arbitrary: q)
  case (SuiteDecl t f ex ss ts)
  from SuiteDecl.prems obtain ss' ts' where q: "q = SuiteDecl t f ex ss' ts'"
    and suites_eq: "map stripRuns ss' = map stripRuns ss"
    and tests_eq: "map (\<lambda>test. test\<lparr>runs := []\<rparr>) ts' = map (\<lambda>test. test\<lparr>runs := []\<rparr>) ts"
    by (rule stripRuns_eq_SuiteDecl)
  from suites_eq have len: "length ss' = length ss" by (metis length_map)
  have pair: "filterOnly (appendRuns s s') =
             (fst (filterOnly s), appendRuns (snd (filterOnly s)) (snd (filterOnly s')))
           \<and> fst (filterOnly s') = fst (filterOnly s) \<and> suiteOnly s' = suiteOnly s"
    if "(s, s') \<in> set (zip ss ss')" for s s'
  proof (rule SuiteDecl.IH)
    from that show "s \<in> set ss" by (rule set_zip_leftD)
    from suites_eq that show "stripRuns s' = stripRuns s"
      by (metis map_eq_zip)
  qed
  note lists = filterOnly_appendRunsList [OF len pair]
  let ?K = "\<lambda>(kept, child). kept \<or> suiteOnly child"
  let ?kept = "\<lambda>xs. map snd (filter ?K (map filterOnly xs))"
  have tests: "filter only (appendTestRuns ts ts') = appendTestRuns (filter only ts) (filter only ts')"
    by (rule filter_only_appendTestRuns [OF tests_eq])
  have flags: "map (\<lambda>(kept, child). kept \<or> suiteOnly child) (map filterOnly ss') =
      map (\<lambda>(kept, child). kept \<or> suiteOnly child) (map filterOnly ss)"
    using len pair
  proof (induction ss' ss rule: list_induct2)
    case Nil
    then show ?case by simp
  next
    case (Cons a as b bs)
    then have "fst (filterOnly a) = fst (filterOnly b) \<and> suiteOnly a = suiteOnly b" by simp
    moreover from Cons have "map (\<lambda>(kept, child). kept \<or> suiteOnly child) (map filterOnly as) =
      map (\<lambda>(kept, child). kept \<or> suiteOnly child) (map filterOnly bs)" by simp
    ultimately show ?case
      by (cases "filterOnly a"; cases "filterOnly b")
        (simp add: filterOnly_suiteOnly [of a, symmetric] filterOnly_suiteOnly [of b, symmetric])
  qed
  have kept_iff: "filter ?K (map filterOnly ss') = [] \<longleftrightarrow> filter ?K (map filterOnly ss) = []"
  proof -
    have char: "filter ?K (map filterOnly xs) = [] \<longleftrightarrow> True \<notin> set (map ?K (map filterOnly xs))"
      for xs :: "('a, 'b) SuiteDeclaration list"
      by (auto simp: filter_empty_conv)
    show ?thesis by (simp only: char flags)
  qed
  have only_iff: "filter only ts' = [] \<longleftrightarrow> filter only ts = []"
  proof -
    from tests_eq have "map only ts' = map only ts"
    proof (induction ts' arbitrary: ts)
      case Nil
      then show ?case by simp
    next
      case (Cons a as)
      then obtain b bs where ts: "ts = b # bs" by (cases ts) auto
      with Cons.prems have "a\<lparr>runs := []\<rparr> = b\<lparr>runs := []\<rparr>" by simp
      then have "only a = only b"
        by (metis TestDeclaration.select_convs(3) TestDeclaration.surjective TestDeclaration.update_convs(4))
      with Cons ts show ?case by simp
    qed
    moreover have "filter only xs = [] \<longleftrightarrow> True \<notin> set (map only xs)"
      for xs :: "('a, 'b) TestDeclaration list"
      by (auto simp: filter_empty_conv)
    ultimately show ?thesis by (simp only:)
  qed
  show ?case
    unfolding q
    by (simp add: filterOnly_unfold lists tests kept_iff only_iff
        appendRunsList_Nil_iff appendTestRuns_Nil_iff del: map_map)
qed

lemma stripRuns_idem: "stripRuns (stripRuns s) = stripRuns s"
  by (induction s) simp

lemma generateTests_stripped:
  "generateTests c fx suiteList config =
     map_sum id (appendRuns (snd (filterOnly (SuiteDecl [] [] False suiteList []))))
       (generateTests c fx (map stripRuns suiteList) config)"
proof (cases "makeGrep c (grep config)")
  case (Inl e)
  then show ?thesis by (simp add: generateTests_def)
next
  case (Inr g)
  note files = generateFiles_stripped [of c config fx g suiteList]
  show ?thesis
  proof (cases "generateFiles c config fx g (map stripRuns suiteList)")
    case (Inl e)
    with files Inr show ?thesis by (simp add: generateTests_def)
  next
    case (Inr fresh)
    from generateFiles_shape [OF Inr] have "map stripRuns fresh = map stripRuns suiteList"
      by (simp add: stripRuns_idem)
    then have "stripRuns (SuiteDecl [] [] False fresh []) = stripRuns (SuiteDecl [] [] False suiteList [])"
      by simp
    from filterOnly_appendRuns [OF this]
    have "snd (filterOnly (SuiteDecl [] [] False (appendRunsList suiteList fresh) [])) =
        appendRuns (snd (filterOnly (SuiteDecl [] [] False suiteList [])))
          (snd (filterOnly (SuiteDecl [] [] False fresh [])))"
      by simp
    with files Inr \<open>makeGrep c (grep config) = Inr g\<close> show ?thesis
      by (simp add: generateTests_def)
  qed
qed

section \<open>Properties of the generator\<close>

subsection \<open>The number of runs\<close>

text \<open>
  C1, as amended. A test that passes the filter of line 40, whose fixture names are all
  registered and whose generator fixtures all have a non-empty domain, keeps the runs it
  had and gains as many runs as the product of the domain sizes of its generator fixtures
  (the fixture names with an entry in \<^verbatim>\<open>matrix\<close>, in list order) times \<^verbatim>\<open>repeatEach\<close>; with no
  generator fixture it gains exactly \<^verbatim>\<open>repeatEach\<close> runs.
\<close>

theorem run_count_is_product:
  assumes "passesGrep c path g test"
    and "allRegistered (registrations fx) (resolveFixtures c (fn test))"
    and "list_all (\<lambda>vals. vals \<noteq> []) (domains (matrix fx) (resolveFixtures c (fn test)))"
  shows "\<exists>g' test'. generateTest c config fx path g test = Inr (g', test')
           \<and> take (length (runs test)) (runs test') = runs test
           \<and> length (appended (runs test) test') =
               prod_list (map length (domains (matrix fx) (resolveFixtures c (fn test)))) * repeatEach config
           \<and> (domains (matrix fx) (resolveFixtures c (fn test)) = [] \<longrightarrow>
                length (appended (runs test) test') = repeatEach config)"
  using assms
  by (simp add: generateTest_passes populate_eq appended_def testRuns_length
      generatorConfigurations_length)

theorem run_count_is_product_witness:
  "passesGrep exampleCollaborators [''A''] None (exampleTest ''t'' (Some [''browser'', ''page'']) False)
   \<and> allRegistered (registrations exampleFixtures) [''browser'', ''page'']
   \<and> list_all (\<lambda>vals. vals \<noteq> []) (domains (matrix exampleFixtures) [''browser'', ''page''])
   \<and> (\<exists>g' test'.
         generateTest exampleCollaborators \<lparr>grep = None, repeatEach = 2\<rparr> exampleFixtures [''A''] None
           (exampleTest ''t'' (Some [''browser'', ''page'']) False) = Inr (g', test')
         \<and> length (appended [] test') = 4)"
proof -
  let ?t = "exampleTest ''t'' (Some [''browser'', ''page'']) False"
  have r: "resolveFixtures exampleCollaborators (fn ?t) = [''browser'', ''page'']"
    by (simp add: resolveFixtures_def exampleTest_def exampleCollaborators_simps)
  have p: "passesGrep exampleCollaborators [''A''] None ?t"
    by (simp add: passesGrep_def)
  have a: "allRegistered (registrations exampleFixtures) [''browser'', ''page'']"
    by (simp add: allRegistered_def exampleFixtures_simps)
  have d: "domains (matrix exampleFixtures) [''browser'', ''page''] = [[''chromium'', ''firefox'']]"
    by (simp add: domains_def List.map_filter_simps exampleFixtures_simps)
  have n: "list_all (\<lambda>vals. vals \<noteq> []) (domains (matrix exampleFixtures) [''browser'', ''page''])"
    by (simp add: d)
  from run_count_is_product [of exampleCollaborators "[''A'']" None ?t exampleFixtures
      "\<lparr>grep = None, repeatEach = 2\<rparr>"] p a n r d
  show ?thesis
    by (simp add: exampleTest_def)
qed

text \<open>
  C1 as stated fails for a generator fixture with an empty domain: the product of the
  domain sizes is 0, yet the fallback of lines 70-71 gives the test one configuration and
  one run per repeat.
\<close>

theorem run_count_empty_domain_counterexample:
  "generateTest exampleCollaborators \<lparr>grep = None, repeatEach = 1\<rparr> exampleFixtures [''A''] None
     (exampleTest ''t'' (Some [''empty'']) False)
   = Inr (None, \<lparr>title = ''t'', fn = Some [''empty''], only = False,
        runs = [\<lparr>configuration = [], configurationString = ''#repeat-0#'',
                 workerHash = ''sha1:@#repeat-0#''\<rparr>]\<rparr>)
   \<and> prod_list (map length (domains (matrix exampleFixtures) [''empty''])) * 1 = 0"
  by (simp add: generateTest_def populate_eq resolveFixtures_def exampleTest_def
      exampleCollaborators_simps exampleFixtures_simps allRegistered_def workerLocations_def
      generatorConfigurations_def testRuns_def makeRun_def serializeConfiguration_def
      domains_def List.map_filter_simps decimal.simps digitChar_def Let_def)

text \<open>
  C9, as amended. The expansion never ends with an empty list of configurations. A
  generator fixture with an empty domain discards what was accumulated; the next generator
  fixture after it starts again from the single empty configuration, which gives one
  configuration per value of its domain, holding that pair alone; with no generator
  fixture after it the fallback of lines 70-71 leaves the empty configuration alone. In
  every case the configurations are those of the fixtures after the empty domain. A test
  that passes the filter and whose fixture names are all registered keeps its runs and
  gains one run per configuration and repeat, hence at least \<^verbatim>\<open>repeatEach\<close> runs.
\<close>

theorem expansion_never_empty:
  "generatorConfigurations m fixtures \<noteq> []
   \<and> (m name = Some [] \<longrightarrow> expand m gc (before @ [name]) = [])
   \<and> (m name = Some [] \<and> domains m between = [] \<and> m next = Some vals \<longrightarrow>
        expand m gc (before @ name # between @ next # rest) =
          expand m (map (\<lambda>val. [(next, val)]) vals) rest)
   \<and> (m name = Some [] \<and> domains m rest = [] \<longrightarrow>
        generatorConfigurations m (before @ name # rest) = [[]])
   \<and> (m name = Some [] \<longrightarrow>
        generatorConfigurations m (before @ name # rest) = generatorConfigurations m rest)
   \<and> (passesGrep c path g test \<and> allRegistered (registrations fx) (resolveFixtures c (fn test)) \<longrightarrow>
        (\<exists>g' test'. generateTest c config fx path g test = Inr (g', test')
           \<and> take (length (runs test)) (runs test') = runs test
           \<and> length (appended (runs test) test') =
               length (generatorConfigurations (matrix fx) (resolveFixtures c (fn test)))
                 * repeatEach config
           \<and> repeatEach config \<le> length (appended (runs test) test')))"
proof (intro conjI impI)
  show "generatorConfigurations m fixtures \<noteq> []"
    by (rule generatorConfigurations_nonempty)
  show "expand m gc (before @ [name]) = []" if "m name = Some []"
    using that by (simp add: expand_append concat_map_nil)
  show "expand m gc (before @ name # between @ next # rest) =
          expand m (map (\<lambda>val. [(next, val)]) vals) rest"
    if "m name = Some [] \<and> domains m between = [] \<and> m next = Some vals"
  proof -
    from that have "expand m gc (before @ name # between @ next # rest) =
        expand m [] (between @ next # rest)"
      by (simp only: expand_empty_domain)
    also have "\<dots> = expand m (expand m [] between) (next # rest)"
      by (rule expand_append)
    also from that have "\<dots> = expand m [] (next # rest)"
      by (simp only: expand_no_generators)
    also from that have "\<dots> = expand m (map (\<lambda>val. [(next, val)]) vals) rest"
      by simp
    finally show ?thesis .
  qed
  show "generatorConfigurations m (before @ name # rest) = [[]]"
    if "m name = Some [] \<and> domains m rest = []"
    using that by (simp add: generatorConfigurations_def expand_empty_domain expand_no_generators)
  show "generatorConfigurations m (before @ name # rest) = generatorConfigurations m rest"
    if "m name = Some []"
    using that by (simp add: generatorConfigurations_def expand_empty_domain)
  show "\<exists>g' test'. generateTest c config fx path g test = Inr (g', test')
           \<and> take (length (runs test)) (runs test') = runs test
           \<and> length (appended (runs test) test') =
               length (generatorConfigurations (matrix fx) (resolveFixtures c (fn test)))
                 * repeatEach config
           \<and> repeatEach config \<le> length (appended (runs test) test')"
    if "passesGrep c path g test \<and> allRegistered (registrations fx) (resolveFixtures c (fn test))"
  proof -
    from that populate_gains [of c path g test fx config]
    have "\<exists>g' test'. generateTest c config fx path g test = Inr (g', test')
           \<and> take (length (runs test)) (runs test') = runs test
           \<and> repeatEach config \<le> length (appended (runs test) test')"
      by simp
    moreover from that have "generateTest c config fx path g test = Inr (g', test') \<Longrightarrow>
        length (appended (runs test) test') =
          length (generatorConfigurations (matrix fx) (resolveFixtures c (fn test))) * repeatEach config"
      for g' test'
      by (auto simp: generateTest_passes populate_eq appended_def testRuns_length)
    ultimately show ?thesis by blast
  qed
qed

theorem expansion_never_empty_witness:
  "matrix exampleFixtures ''empty'' = Some []
   \<and> domains (matrix exampleFixtures) [''page''] = []
   \<and> matrix exampleFixtures ''browser'' = Some [''chromium'', ''firefox'']
   \<and> expand (matrix exampleFixtures) [] ([''browser''] @ [''empty'']) = []
   \<and> expand (matrix exampleFixtures) [] ([''browser''] @ ''empty'' # [''page''] @ ''browser'' # [])
       = [[(''browser'', ''chromium'')], [(''browser'', ''firefox'')]]
   \<and> generatorConfigurations (matrix exampleFixtures) ([''browser''] @ ''empty'' # [''page'']) = [[]]
   \<and> generatorConfigurations (matrix exampleFixtures) [''browser'', ''empty'', ''page'', ''browser'']
       = [[(''browser'', ''chromium'')], [(''browser'', ''firefox'')]]
   \<and> passesGrep exampleCollaborators [''A''] None
        (exampleTest ''t'' (Some [''browser'', ''empty'', ''page'', ''browser'']) False)
   \<and> allRegistered (registrations exampleFixtures) [''browser'', ''empty'', ''page'', ''browser'']
   \<and> (\<exists>g' test'.
         generateTest exampleCollaborators \<lparr>grep = None, repeatEach = 3\<rparr> exampleFixtures [''A''] None
           (exampleTest ''t'' (Some [''browser'', ''empty'', ''page'', ''browser'']) False) = Inr (g', test')
         \<and> length (appended [] test') = 6
         \<and> 3 \<le> length (appended [] test'))"
proof -
  let ?fixtures = "[''browser'', ''empty'', ''page'', ''browser'']"
  let ?t = "exampleTest ''t'' (Some ?fixtures) False"
  let ?m = "matrix exampleFixtures"
  let ?config = "\<lparr>grep = None, repeatEach = 3\<rparr>"
  let ?two = "[[(''browser'', ''chromium'')], [(''browser'', ''firefox'')]]"
  have e: "?m ''empty'' = Some []" and b: "?m ''browser'' = Some [''chromium'', ''firefox'']"
    by (simp_all add: exampleFixtures_simps)
  have d: "domains ?m [''page''] = []"
    by (simp add: domains_def List.map_filter_simps exampleFixtures_simps)
  have r: "resolveFixtures exampleCollaborators (fn ?t) = ?fixtures"
    by (simp add: resolveFixtures_def exampleTest_def exampleCollaborators_simps)
  have p: "passesGrep exampleCollaborators [''A''] None ?t"
    by (simp add: passesGrep_def)
  have a: "allRegistered (registrations exampleFixtures) ?fixtures"
    by (simp add: allRegistered_def exampleFixtures_simps)
  from a r have a': "allRegistered (registrations exampleFixtures) (resolveFixtures exampleCollaborators (fn ?t))"
    by simp
  note inst = expansion_never_empty [of ?m ?fixtures "''empty''" "[]" "[''browser'']" "[''page'']"
      "''browser''" "[''chromium'', ''firefox'']" "[]" exampleCollaborators "[''A'']" None ?t
      exampleFixtures ?config]
  have discard: "expand ?m [] ([''browser''] @ [''empty'']) = []"
    by (rule inst [THEN conjunct2, THEN conjunct1, THEN mp, OF e])
  have "expand ?m [] ([''browser''] @ ''empty'' # [''page''] @ ''browser'' # []) =
      expand ?m (map (\<lambda>val. [(''browser'', val)]) [''chromium'', ''firefox'']) []"
    by (rule inst [THEN conjunct2, THEN conjunct2, THEN conjunct1, THEN mp,
          OF conjI [OF e conjI [OF d b]]])
  then have restart: "expand ?m [] ([''browser''] @ ''empty'' # [''page''] @ ''browser'' # []) = ?two"
    by simp
  have fallback: "generatorConfigurations ?m ([''browser''] @ ''empty'' # [''page'']) = [[]]"
    by (rule expansion_never_empty [of ?m _ "''empty''" _ "[''browser'']" _ _ _ "[''page'']",
          THEN conjunct2, THEN conjunct2, THEN conjunct2, THEN conjunct1, THEN mp, OF conjI [OF e d]])
  from restart have cfgs: "generatorConfigurations ?m ?fixtures = ?two"
    by (simp add: generatorConfigurations_def)
  have "\<exists>g' test'. generateTest exampleCollaborators ?config exampleFixtures [''A''] None ?t = Inr (g', test')
           \<and> take (length (runs ?t)) (runs test') = runs ?t
           \<and> length (appended (runs ?t) test') =
               length (generatorConfigurations (matrix exampleFixtures)
                         (resolveFixtures exampleCollaborators (fn ?t)))
                 * repeatEach ?config
           \<and> repeatEach ?config \<le> length (appended (runs ?t) test')"
    by (rule inst [THEN conjunct2, THEN conjunct2, THEN conjunct2, THEN conjunct2, THEN conjunct2,
          THEN mp, OF conjI [OF p a']])
  then have gains: "\<exists>g' test'.
         generateTest exampleCollaborators ?config exampleFixtures [''A''] None ?t = Inr (g', test')
         \<and> length (appended [] test') = 6
         \<and> 3 \<le> length (appended [] test')"
    by (simp add: r cfgs) (simp add: exampleTest_def)
  from e d b discard restart fallback cfgs p a gains show ?thesis by blast
qed

text \<open>
  C9 as stated fails for a test that passes the filter and names a fixture with no
  registration: line 140 throws before the expansion is reached, the test gains no run and
  the pass ends with the TypeError.
\<close>

theorem expansion_unregistered_fixture_counterexample:
  "passesGrep exampleCollaborators [''A''] None (exampleTest ''t'' (Some [''ghost'']) False)
   \<and> generateTest exampleCollaborators \<lparr>grep = None, repeatEach = 1\<rparr> exampleFixtures [''A''] None
        (exampleTest ''t'' (Some [''ghost'']) False) = Inl TypeError
   \<and> generateTests exampleCollaborators exampleFixtures
        [SuiteDecl ''A'' ''a.ts'' False [] [exampleTest ''t'' (Some [''ghost'']) False]]
        \<lparr>grep = None, repeatEach = 1\<rparr> = Inl TypeError"
proof -
  let ?t = "exampleTest ''t'' (Some [''ghost'']) False"
  let ?config = "\<lparr>grep = None, repeatEach = 1\<rparr>"
  have p: "passesGrep exampleCollaborators [''A''] None ?t"
    by (simp add: passesGrep_def)
  have g: "generateTest exampleCollaborators ?config exampleFixtures [''A''] None ?t = Inl TypeError"
    by (simp add: generateTest_def populate_eq resolveFixtures_def exampleTest_def
        exampleCollaborators_simps exampleFixtures_def allRegistered_def)
  have "generateTests exampleCollaborators exampleFixtures
        [SuiteDecl ''A'' ''a.ts'' False [] [?t]] ?config = Inl TypeError"
    using g by (simp add: generateTests_def makeGrep_def exampleCollaborators_simps)
  with p g show ?thesis by blast
qed

subsection \<open>Configuration strings and worker keys\<close>



subsection \<open>The worker hash\<close>

text \<open>
  C5. When every fixture name is registered, the hash is the digest of the locations of
  the worker-scoped registrations of the fixture names, fed in list order; registrations
  of another scope add nothing and the fixture values are no input at all. Two fixture
  lists with the same sequence of worker-scoped locations get the same hash. (An
  unregistered name makes the computation throw.)
\<close>

theorem worker_hash_depends_on_locations:
  "computeWorkerRegistrationHash c regs fixtures =
     (if allRegistered regs fixtures then Inr (sha1hex c (concat (workerLocations regs fixtures)))
      else Inl TypeError)
   \<and> workerLocations regs fixtures =
       map location (filter (\<lambda>r. scope r = ''worker'') (map (\<lambda>f. the (regs f)) fixtures))
   \<and> (allRegistered regs fixtures \<and> allRegistered regs' fixtures'
        \<and> workerLocations regs fixtures = workerLocations regs' fixtures' \<longrightarrow>
      computeWorkerRegistrationHash c regs fixtures = computeWorkerRegistrationHash c regs' fixtures')"
  by (simp add: computeWorkerRegistrationHash_eq workerLocations_def)

theorem worker_hash_depends_on_locations_witness:
  "allRegistered (registrations exampleFixtures) [''browser'', ''page'']
   \<and> allRegistered (registrations exampleFixtures) [''page'', ''empty'']
   \<and> workerLocations (registrations exampleFixtures) [''browser'', ''page''] = [''L'']
   \<and> workerLocations (registrations exampleFixtures) [''page'', ''empty''] = [''L'']
   \<and> computeWorkerRegistrationHash exampleCollaborators (registrations exampleFixtures) [''browser'', ''page'']
       = computeWorkerRegistrationHash exampleCollaborators (registrations exampleFixtures) [''page'', ''empty'']
   \<and> computeWorkerRegistrationHash exampleCollaborators (registrations exampleFixtures) [''browser'', ''page'']
       = Inr ''sha1:L''"
proof -
  let ?regs = "registrations exampleFixtures"
  have a: "allRegistered ?regs [''browser'', ''page'']" and a': "allRegistered ?regs [''page'', ''empty'']"
    by (simp_all add: allRegistered_def exampleFixtures_simps)
  have w: "workerLocations ?regs [''browser'', ''page''] = [''L'']"
    and w': "workerLocations ?regs [''page'', ''empty''] = [''L'']"
    by (simp_all add: workerLocations_def exampleFixtures_simps)
  note inst = worker_hash_depends_on_locations [of exampleCollaborators ?regs "[''browser'', ''page'']"
      ?regs "[''page'', ''empty'']"]
  from w w' have "workerLocations ?regs [''browser'', ''page''] = workerLocations ?regs [''page'', ''empty'']"
    by simp
  with inst a a' have same: "computeWorkerRegistrationHash exampleCollaborators ?regs [''browser'', ''page'']
       = computeWorkerRegistrationHash exampleCollaborators ?regs [''page'', ''empty'']"
    by blast
  from inst have "computeWorkerRegistrationHash exampleCollaborators ?regs [''browser'', ''page'']
       = (if allRegistered ?regs [''browser'', ''page'']
          then Inr (sha1hex exampleCollaborators (concat (workerLocations ?regs [''browser'', ''page''])))
          else Inl TypeError)"
    by blast
  with a w have val: "computeWorkerRegistrationHash exampleCollaborators ?regs [''browser'', ''page'']
       = Inr ''sha1:L''"
    by (simp add: exampleCollaborators_simps)
  from a a' w w' same val show ?thesis by blast
qed

subsection \<open>The only-filter\<close>

text \<open>
  C3, as amended. If exactly one test of the tree is marked exclusive and every suite
  marked exclusive has that test somewhere in it, the filter reports that the root survives,
  and the pruned tree holds exactly that test, is a single path of suites down to it, and
  is the given tree with suites and tests left out. If no test and no suite below the root
  is marked exclusive, the filter reports that nothing survives and leaves the tree as it
  is.
\<close>

theorem only_filter_single_test:
  "(length (exclusiveTests s) = 1 \<and> onlySuitesHoldOnlyTests s \<longrightarrow>
      fst (filterOnly s)
      \<and> allTests (snd (filterOnly s)) = exclusiveTests s
      \<and> chain (snd (filterOnly s))
      \<and> prunedFrom (snd (filterOnly s)) s)
   \<and> (exclusiveTests s = [] \<and> list_all (\<lambda>child. \<not> suiteOnly child) (subSuites s) \<longrightarrow>
      filterOnly s = (False, s))"
proof (intro conjI impI)
  assume h: "length (exclusiveTests s) = 1 \<and> onlySuitesHoldOnlyTests s"
  then have ne: "exclusiveTests s \<noteq> []" by auto
  from h ne show "fst (filterOnly s)" by (simp add: filterOnly_survives)
  from h ne show "allTests (snd (filterOnly s)) = exclusiveTests s"
    by (simp add: filterOnly_keeps_exclusive_tests)
  from h show "chain (snd (filterOnly s))" by (simp add: filterOnly_chain)
  show "prunedFrom (snd (filterOnly s)) s" by (rule filterOnly_pruned)
next
  assume "exclusiveTests s = [] \<and> list_all (\<lambda>child. \<not> suiteOnly child) (subSuites s)"
  then show "filterOnly s = (False, s)" by (simp add: filterOnly_untouched)
qed

theorem only_filter_single_test_witness:
  "length (exclusiveTests (SuiteDecl [] [] False
       [SuiteDecl ''A'' ''a.ts'' True []
          [exampleTest ''t'' None True, exampleTest ''u'' None False],
        SuiteDecl ''B'' ''b.ts'' False [] [exampleTest ''v'' None False]] [])) = 1
   \<and> onlySuitesHoldOnlyTests (SuiteDecl [] [] False
       [SuiteDecl ''A'' ''a.ts'' True []
          [exampleTest ''t'' None True, exampleTest ''u'' None False],
        SuiteDecl ''B'' ''b.ts'' False [] [exampleTest ''v'' None False]] [])
   \<and> allTests (snd (filterOnly (SuiteDecl [] [] False
       [SuiteDecl ''A'' ''a.ts'' True []
          [exampleTest ''t'' None True, exampleTest ''u'' None False],
        SuiteDecl ''B'' ''b.ts'' False [] [exampleTest ''v'' None False]] [])))
       = [exampleTest ''t'' None True]
   \<and> chain (snd (filterOnly (SuiteDecl [] [] False
       [SuiteDecl ''A'' ''a.ts'' True []
          [exampleTest ''t'' None True, exampleTest ''u'' None False],
        SuiteDecl ''B'' ''b.ts'' False [] [exampleTest ''v'' None False]] [])))
   \<and> exclusiveTests (SuiteDecl ''B'' ''b.ts'' False [] [exampleTest ''v'' None False]) = []
   \<and> list_all (\<lambda>child. \<not> suiteOnly child)
        (subSuites (SuiteDecl ''B'' ''b.ts'' False [] [exampleTest ''v'' None False]))
   \<and> filterOnly (SuiteDecl ''B'' ''b.ts'' False [] [exampleTest ''v'' None False])
       = (False, SuiteDecl ''B'' ''b.ts'' False [] [exampleTest ''v'' None False])"
proof -
  let ?b = "SuiteDecl ''B'' ''b.ts'' False [] [exampleTest ''v'' None False]"
  let ?s = "SuiteDecl [] [] False
       [SuiteDecl ''A'' ''a.ts'' True []
          [exampleTest ''t'' None True, exampleTest ''u'' None False], ?b] []"
  have e: "exclusiveTests ?s = [exampleTest ''t'' None True]"
    by (simp add: exclusiveTests_def exampleTest_def)
  then have one: "length (exclusiveTests ?s) = 1" by simp
  have h: "onlySuitesHoldOnlyTests ?s"
    by (simp add: onlySuitesHoldOnlyTests_def exclusiveTests_def exampleTest_def)
  have e0: "exclusiveTests ?b = []"
    by (simp add: exclusiveTests_def exampleTest_def)
  have h0: "list_all (\<lambda>child. \<not> suiteOnly child) (subSuites ?b)"
    by simp
  from only_filter_single_test [of ?s] one h
  have "allTests (snd (filterOnly ?s)) = exclusiveTests ?s" and c: "chain (snd (filterOnly ?s))"
    by blast+
  with e have a: "allTests (snd (filterOnly ?s)) = [exampleTest ''t'' None True]" by simp
  from only_filter_single_test [of ?b] e0 h0 have u: "filterOnly ?b = (False, ?b)"
    by blast
  from one h a c e0 h0 u show ?thesis by blast
qed

text \<open>
  C3 as stated fails when a suite is marked exclusive: line 92 keeps such a suite with
  everything in it. Here the only exclusive test is \<open>t\<close> in suite \<open>A\<close>; the exclusive suite
  \<open>B\<close>, no ancestor of \<open>t\<close>, survives with its test \<open>v\<close>.
\<close>

theorem only_filter_exclusive_suite_counterexample:
  "exclusiveTests (SuiteDecl [] [] False
       [SuiteDecl ''A'' ''a.ts'' False [] [exampleTest ''t'' None True],
        SuiteDecl ''B'' ''b.ts'' True [] [exampleTest ''v'' None False]] [])
     = [exampleTest ''t'' None True]
   \<and> snd (filterOnly (SuiteDecl [] [] False
       [SuiteDecl ''A'' ''a.ts'' False [] [exampleTest ''t'' None True],
        SuiteDecl ''B'' ''b.ts'' True [] [exampleTest ''v'' None False]] []))
     = SuiteDecl [] [] False
       [SuiteDecl ''A'' ''a.ts'' False [] [exampleTest ''t'' None True],
        SuiteDecl ''B'' ''b.ts'' True [] [exampleTest ''v'' None False]] []"
  by (simp add: exclusiveTests_def exampleTest_def filterOnly.simps Let_def)

subsection \<open>The grep pattern\<close>

text \<open>
  C6, as amended. For an input without line terminator: an input \<^verbatim>\<open>/p/f\<close> with a non-empty
  \<open>p\<close> and \<open>f\<close> one of \<^verbatim>\<open>g\<close>, \<^verbatim>\<open>i\<close> or nothing gives the pattern \<open>p\<close> with the flags \<open>f\<close>, and an
  input not of the form \<^verbatim>\<open>/p/f\<close> gives the whole input as the pattern, with no flags. The
  match of line 27 itself never fails. The \<^verbatim>\<open>RegExp\<close> constructor of line 28 is called on
  the result with nothing to catch it: when it accepts the pattern, the filter starts with
  that expression and \<^verbatim>\<open>lastIndex\<close> 0; when it throws, generation is aborted.
\<close>

theorem grep_parsing:
  "(\<not> list_ex lineTerminator s \<longrightarrow>
      (delimited s p f \<and> p \<noteq> [] \<longrightarrow> grepArguments s = (p, Some f))
      \<and> ((\<forall>p f. \<not> delimited s p f) \<longrightarrow> grepArguments s = (s, None)))
   \<and> (s \<noteq> [] \<and> grepArguments s = (src, flags) \<and> compile c src flags = Some r \<longrightarrow>
        makeGrep c (Some s) = Inr (Some \<lparr>matcher = r, global = (flags = Some ''g''), lastIndex = 0\<rparr>))
   \<and> (s \<noteq> [] \<and> grepArguments s = (src, flags) \<and> compile c src flags = None \<longrightarrow>
        generateTests c fx suiteList \<lparr>grep = Some s, repeatEach = n\<rparr> = Inl SyntaxError)"
  by (auto simp: grepArguments_delimited grepArguments_plain makeGrep_nonempty generateTests_def)

theorem grep_parsing_witness:
  "\<not> list_ex lineTerminator ''/foo/g'' \<and> delimited ''/foo/g'' ''foo'' ''g'' \<and> ''foo'' \<noteq> []
   \<and> grepArguments ''/foo/g'' = (''foo'', Some ''g'')
   \<and> \<not> list_ex lineTerminator ''foo'' \<and> (\<forall>p f. \<not> delimited ''foo'' p f)
   \<and> grepArguments ''foo'' = (''foo'', None)
   \<and> compile exampleCollaborators ''foo'' (Some ''g'') = Some ''foo''
   \<and> makeGrep exampleCollaborators (Some ''/foo/g'')
       = Inr (Some \<lparr>matcher = ''foo'', global = True, lastIndex = 0\<rparr>)
   \<and> grepArguments ''('' = (''('', None)
   \<and> compile exampleCollaborators ''('' None = None
   \<and> generateTests exampleCollaborators exampleFixtures [] \<lparr>grep = Some ''('', repeatEach = 1\<rparr>
       = Inl SyntaxError"
proof -
  have l1: "\<not> list_ex lineTerminator ''/foo/g''" and l2: "\<not> list_ex lineTerminator ''foo''"
    and l3: "\<not> list_ex lineTerminator ''(''"
    by (simp_all add: lineTerminator_def)
  have d1: "delimited ''/foo/g'' ''foo'' ''g''" and d2: "\<forall>p f. \<not> delimited ''foo'' p f"
    and d3: "\<forall>p f. \<not> delimited ''('' p f"
    by (simp_all add: delimited_def)
  have n: "''foo'' \<noteq> []" by simp
  have c1: "compile exampleCollaborators ''foo'' (Some ''g'') = Some ''foo''"
    and c2: "compile exampleCollaborators ''('' None = None"
    by (simp_all add: exampleCollaborators_simps literalCompile_def)
  have a1: "grepArguments ''/foo/g'' = (''foo'', Some ''g'')"
    by (rule grep_parsing [THEN conjunct1, THEN mp, OF l1, THEN conjunct1, THEN mp,
          OF conjI [OF d1 n]])
  have a2: "grepArguments ''foo'' = (''foo'', None)"
    by (rule grep_parsing [THEN conjunct1, THEN mp, OF l2, THEN conjunct2, THEN mp, OF d2])
  have a3: "grepArguments ''('' = (''('', None)"
    by (rule grep_parsing [THEN conjunct1, THEN mp, OF l3, THEN conjunct2, THEN mp, OF d3])
  have ne1: "''/foo/g'' \<noteq> []" and ne2: "''('' \<noteq> []" by simp_all
  have "makeGrep exampleCollaborators (Some ''/foo/g'')
       = Inr (Some \<lparr>matcher = ''foo'', global = (Some ''g'' = Some ''g''), lastIndex = 0\<rparr>)"
    by (rule grep_parsing [THEN conjunct2, THEN conjunct1, THEN mp,
          OF conjI [OF ne1 conjI [OF a1 c1]]])
  then have m: "makeGrep exampleCollaborators (Some ''/foo/g'')
       = Inr (Some \<lparr>matcher = ''foo'', global = True, lastIndex = 0\<rparr>)"
    by simp
  have g: "generateTests exampleCollaborators exampleFixtures [] \<lparr>grep = Some ''('', repeatEach = 1\<rparr>
       = Inl SyntaxError"
    by (rule grep_parsing [THEN conjunct2, THEN conjunct2, THEN mp,
          OF conjI [OF ne2 conjI [OF a3 c2]]])
  from l1 d1 n a1 l2 d2 a2 c1 m a3 c2 g show ?thesis by blast
qed

text \<open>
  C6 as stated fails on a pattern that is not a regular expression, such as an
  unterminated group: the SyntaxError of the constructor ends the pass.
\<close>

theorem grep_invalid_pattern_aborts:
  "generateTests exampleCollaborators exampleFixtures
     [SuiteDecl ''A'' ''a.ts'' False [] [exampleTest ''t'' (Some []) False]]
     \<lparr>grep = Some ''('', repeatEach = 1\<rparr> = Inl SyntaxError"
  by (simp add: generateTests_def makeGrep_def grepArguments_def grepMatch_def lineTerminator_def
      exampleCollaborators_simps literalCompile_def)

text \<open>
  Two inputs the amended statement leaves out: an empty group 1 is falsy, so that \<^verbatim>\<open>//i\<close>
  gives the whole input as the pattern and keeps the flag; and the dot of the second
  alternative stops at a line terminator, so that only the first line of such an input
  becomes the pattern.
\<close>

lemma grepArguments_empty_pattern:
  "grepArguments ''//i'' = (''//i'', Some ''i'')"
  by (simp add: grepArguments_def grepMatch_def splitTail_def lineTerminator_def)

lemma grepArguments_line_terminator:
  "grepArguments [CHR ''a'', CHR 0x0A, CHR ''b''] = (''a'', None)"
  by (simp add: grepArguments_def grepMatch_def lineTerminator_def)

subsection \<open>The grep filter\<close>

text \<open>
  Without the flag \<^verbatim>\<open>g\<close> the filter of line 40 lets a test pass exactly when its full title
  matches, and leaves the expression as it is.
\<close>

lemma grep_filter_without_global_flag:
  assumes "\<not> global re"
  shows "passesGrep c path (Some re) test = titleMatches c re (fullTitle c path (title test))"
    and "grepAfter c path (Some re) test = Some re"
  using assms by (simp_all add: passesGrep_def grepAfter_def regExpTest_not_global)

text \<open>
  C4 fails with the flag \<^verbatim>\<open>g\<close>, which line 27 admits: \<^verbatim>\<open>test\<close> then starts at \<^verbatim>\<open>lastIndex\<close>, which
  the match on the previous title has moved. Of two tests with the full title \<^verbatim>\<open>A foo\<close> and
  the filter \<^verbatim>\<open>/foo/g\<close>, the first gets its run and leaves \<^verbatim>\<open>lastIndex\<close> at 5; the second,
  whose title matches as well, is searched from index 5 on and gets no run.
\<close>

theorem grep_global_flag_skips_matching_test:
  "makeGrep exampleCollaborators (Some ''/foo/g'')
     = Inr (Some \<lparr>matcher = ''foo'', global = True, lastIndex = 0\<rparr>)
   \<and> titleMatches exampleCollaborators \<lparr>matcher = ''foo'', global = True, lastIndex = 0\<rparr>
        (fullTitle exampleCollaborators [''A''] ''foo'')
   \<and> generateTests exampleCollaborators exampleFixtures
        [SuiteDecl ''A'' ''a.ts'' False []
           [exampleTest ''foo'' (Some []) False, exampleTest ''foo'' (Some []) False]]
        \<lparr>grep = Some ''/foo/g'', repeatEach = 1\<rparr>
     = Inr (SuiteDecl [] [] False
         [SuiteDecl ''A'' ''a.ts'' False []
            [\<lparr>title = ''foo'', fn = Some [], only = False,
               runs = [\<lparr>configuration = [], configurationString = ''#repeat-0#'',
                        workerHash = ''sha1:@#repeat-0#''\<rparr>]\<rparr>,
             \<lparr>title = ''foo'', fn = Some [], only = False, runs = []\<rparr>]] [])"
proof -
  let ?re = "\<lparr>matcher = ''foo'', global = True, lastIndex = 0\<rparr>"
  let ?c = exampleCollaborators
  let ?config = "\<lparr>grep = Some ''/foo/g'', repeatEach = 1\<rparr>"
  have m: "makeGrep ?c (Some ''/foo/g'') = Inr (Some ?re)"
    by (simp add: makeGrep_def grepArguments_def grepMatch_def splitTail_def lineTerminator_def
        exampleCollaborators_simps literalCompile_def)
  have t: "fullTitle ?c [''A''] ''foo'' = ''A foo''"
    by (simp add: exampleCollaborators_simps)
  have tm: "titleMatches ?c ?re (fullTitle ?c [''A''] ''foo'')"
    by (simp add: t titleMatches_def exampleCollaborators_simps literalExec_def)
  have first: "regExpTest ?c ?re ''A foo'' = (True, ?re\<lparr>lastIndex := 5\<rparr>)"
    by (simp add: regExpTest_def exampleCollaborators_simps literalExec_def)
  have second: "regExpTest ?c (?re\<lparr>lastIndex := 5\<rparr>) ''A foo'' = (False, ?re)"
    by (simp add: regExpTest_def exampleCollaborators_simps literalExec_def)
  have p: "populate ?c ?config exampleFixtures (exampleTest ''foo'' (Some []) False)
      = Inr \<lparr>title = ''foo'', fn = Some [], only = False,
               runs = [\<lparr>configuration = [], configurationString = ''#repeat-0#'',
                        workerHash = ''sha1:@#repeat-0#''\<rparr>]\<rparr>"
    by (simp add: populate_eq resolveFixtures_def exampleTest_def exampleCollaborators_simps
        allRegistered_def workerLocations_def generatorConfigurations_def testRuns_def
        makeRun_def serializeConfiguration_def decimal.simps digitChar_def Let_def)
  have g1: "generateTest ?c ?config exampleFixtures [''A''] (Some ?re) (exampleTest ''foo'' (Some []) False)
      = Inr (Some (?re\<lparr>lastIndex := 5\<rparr>), \<lparr>title = ''foo'', fn = Some [], only = False,
               runs = [\<lparr>configuration = [], configurationString = ''#repeat-0#'',
                        workerHash = ''sha1:@#repeat-0#''\<rparr>]\<rparr>)"
    using first p t by (simp add: generateTest_def exampleTest_def)
  have g2: "generateTest ?c ?config exampleFixtures [''A''] (Some (?re\<lparr>lastIndex := 5\<rparr>))
        (exampleTest ''foo'' (Some []) False)
      = Inr (Some ?re, \<lparr>title = ''foo'', fn = Some [], only = False, runs = []\<rparr>)"
    using second t by (simp add: generateTest_def exampleTest_def)
  have "generateTests ?c exampleFixtures
        [SuiteDecl ''A'' ''a.ts'' False []
           [exampleTest ''foo'' (Some []) False, exampleTest ''foo'' (Some []) False]] ?config
     = Inr (SuiteDecl [] [] False
         [SuiteDecl ''A'' ''a.ts'' False []
            [\<lparr>title = ''foo'', fn = Some [], only = False,
               runs = [\<lparr>configuration = [], configurationString = ''#repeat-0#'',
                        workerHash = ''sha1:@#repeat-0#''\<rparr>]\<rparr>,
             \<lparr>title = ''foo'', fn = Some [], only = False, runs = []\<rparr>]] [])"
    using m g1 g2
    by (simp add: generateTests_def exampleCollaborators_simps filterOnly.simps Let_def)
  with m tm show ?thesis by blast
qed

subsection \<open>Fixture resolution that throws\<close>

text \<open>
  C7. A pass gives the same result as a pass whose resolver returns the empty list
  wherever the real one throws: the error is swallowed and nothing else in the pass sees
  it. The test itself, when it passes the filter, gets one run per repeat, with the empty
  configuration and the hash over no location at all.
\<close>

theorem resolution_failure_is_empty_fixture_list:
  "generateTests c fx suiteList config =
     generateTests (c\<lparr>fixturesForCallback := \<lambda>f. Some (resolveFixtures c f)\<rparr>) fx suiteList config
   \<and> (fixturesForCallback c (fn test) = None \<and> passesGrep c path g test \<longrightarrow>
        generateTest c config fx path g test =
          Inr (grepAfter c path g test,
               test\<lparr>runs := runs test @ testRuns c (sha1hex c []) [[]] (repeatEach config)\<rparr>))"
proof (intro conjI impI)
  show "generateTests c fx suiteList config =
     generateTests (c\<lparr>fixturesForCallback := \<lambda>f. Some (resolveFixtures c f)\<rparr>) fx suiteList config"
    by (rule generateTests_collaborators_cong [symmetric]) (simp_all add: resolveFixtures_def)
next
  assume "fixturesForCallback c (fn test) = None \<and> passesGrep c path g test"
  then have "resolveFixtures c (fn test) = []" and p: "passesGrep c path g test"
    by (simp_all add: resolveFixtures_def)
  then show "generateTest c config fx path g test =
          Inr (grepAfter c path g test,
               test\<lparr>runs := runs test @ testRuns c (sha1hex c []) [[]] (repeatEach config)\<rparr>)"
    by (simp add: generateTest_passes populate_eq allRegistered_def workerLocations_def
        generatorConfigurations_def)
qed

theorem resolution_failure_is_empty_fixture_list_witness:
  "fixturesForCallback exampleCollaborators (fn (exampleTest ''t'' None False)) = None
   \<and> passesGrep exampleCollaborators [''A''] None (exampleTest ''t'' None False)
   \<and> generateTest exampleCollaborators \<lparr>grep = None, repeatEach = 2\<rparr> exampleFixtures [''A''] None
        (exampleTest ''t'' None False)
     = Inr (None, \<lparr>title = ''t'', fn = None, only = False,
          runs = [\<lparr>configuration = [], configurationString = ''#repeat-0#'',
                   workerHash = ''sha1:@#repeat-0#''\<rparr>,
                  \<lparr>configuration = [], configurationString = ''#repeat-1#'',
                   workerHash = ''sha1:@#repeat-1#''\<rparr>]\<rparr>)"
proof -
  let ?t = "exampleTest ''t'' None False"
  let ?config = "\<lparr>grep = None, repeatEach = 2\<rparr>"
  have f: "fixturesForCallback exampleCollaborators (fn ?t) = None"
    by (simp add: exampleTest_def exampleCollaborators_simps)
  have p: "passesGrep exampleCollaborators [''A''] None ?t"
    by (simp add: passesGrep_def)
  have d: "decimal 0 = ''0''" "decimal (Suc 0) = ''1''"
    by (simp_all add: decimal.simps digitChar_def)
  have two: "[0..<2] = [0, 1]" by (simp add: upt_rec)
  have "generateTest exampleCollaborators ?config exampleFixtures [''A''] None ?t =
          Inr (grepAfter exampleCollaborators [''A''] None ?t,
               ?t\<lparr>runs := runs ?t @
                  testRuns exampleCollaborators (sha1hex exampleCollaborators []) [[]] (repeatEach ?config)\<rparr>)"
    by (rule resolution_failure_is_empty_fixture_list [THEN conjunct2, THEN mp, OF conjI [OF f p]])
  then have "generateTest exampleCollaborators ?config exampleFixtures [''A''] None ?t
     = Inr (None, \<lparr>title = ''t'', fn = None, only = False,
          runs = [\<lparr>configuration = [], configurationString = ''#repeat-0#'',
                   workerHash = ''sha1:@#repeat-0#''\<rparr>,
                  \<lparr>configuration = [], configurationString = ''#repeat-1#'',
                   workerHash = ''sha1:@#repeat-1#''\<rparr>]\<rparr>)"
    by (simp add: grepAfter_def exampleTest_def exampleCollaborators_simps testRuns_def makeRun_def
        serializeConfiguration_def Let_def d two)
  with f p show ?thesis by blast
qed

subsection \<open>What the grep filter leaves in the tree\<close>

text \<open>
  C10. The populated suites are the given suites up to the run lists: the filter of line
  40 removes no test and no suite. A test that does not pass it is left exactly as it was.
  With no test and no suite marked exclusive, the tree that \<^verbatim>\<open>generateTests\<close> returns is the
  root with the given suites, up to the run lists.
\<close>

theorem grep_keeps_tests_in_tree:
  "(generateFiles c config fx g suiteList = Inr populated \<longrightarrow>
      map stripRuns populated = map stripRuns suiteList)
   \<and> (\<not> passesGrep c path g test \<longrightarrow>
        generateTest c config fx path g test = Inr (grepAfter c path g test, test))
   \<and> (generateTests c fx suiteList config = Inr root
        \<and> exclusiveTests (SuiteDecl [] [] False suiteList []) = []
        \<and> list_all (\<lambda>child. \<not> suiteOnly child) (subSuites (SuiteDecl [] [] False suiteList []))
      \<longrightarrow> stripRuns root = SuiteDecl [] [] False (map stripRuns suiteList) [])"
  using generateFiles_shape generateTest_fails generateTests_no_exclusive
  by (intro conjI impI) (blast+)

theorem grep_keeps_tests_in_tree_witness:
  "generateFiles exampleCollaborators \<lparr>grep = Some ''foo'', repeatEach = 1\<rparr> exampleFixtures
     (Some \<lparr>matcher = ''foo'', global = False, lastIndex = 0\<rparr>) [grepExampleSuite]
     = Inr [grepExamplePopulated]
   \<and> map stripRuns [grepExamplePopulated] = map stripRuns [grepExampleSuite]
   \<and> \<not> passesGrep exampleCollaborators [''A''] (Some \<lparr>matcher = ''foo'', global = False, lastIndex = 0\<rparr>)
         (exampleTest ''bar'' (Some []) False)
   \<and> generateTest exampleCollaborators \<lparr>grep = Some ''foo'', repeatEach = 1\<rparr> exampleFixtures [''A'']
        (Some \<lparr>matcher = ''foo'', global = False, lastIndex = 0\<rparr>) (exampleTest ''bar'' (Some []) False)
     = Inr (Some \<lparr>matcher = ''foo'', global = False, lastIndex = 0\<rparr>, exampleTest ''bar'' (Some []) False)
   \<and> generateTests exampleCollaborators exampleFixtures [grepExampleSuite]
        \<lparr>grep = Some ''foo'', repeatEach = 1\<rparr>
     = Inr (SuiteDecl [] [] False [grepExamplePopulated] [])
   \<and> exclusiveTests (SuiteDecl [] [] False [grepExampleSuite] []) = []
   \<and> list_all (\<lambda>child. \<not> suiteOnly child) (subSuites (SuiteDecl [] [] False [grepExampleSuite] []))
   \<and> stripRuns (SuiteDecl [] [] False [grepExamplePopulated] [])
     = SuiteDecl [] [] False (map stripRuns [grepExampleSuite]) []"
proof -
  let ?re = "\<lparr>matcher = ''foo'', global = False, lastIndex = 0\<rparr>"
  let ?c = exampleCollaborators
  let ?config = "\<lparr>grep = Some ''foo'', repeatEach = 1\<rparr>"
  let ?bar = "exampleTest ''bar'' (Some []) False"
  note inst = grep_keeps_tests_in_tree [of ?c ?config exampleFixtures "Some ?re" "[grepExampleSuite]"
      "[grepExamplePopulated]" "[''A'']" ?bar "SuiteDecl [] [] False [grepExamplePopulated] []"]
  have shape: "map stripRuns [grepExamplePopulated] = map stripRuns [grepExampleSuite]"
    by (rule inst [THEN conjunct1, THEN mp, OF example_filtered_pass])
  have second: "regExpTest ?c ?re (fullTitle ?c [''A''] ''bar'') = (False, ?re)"
    by (simp add: regExpTest_def exampleCollaborators_simps literalExec_def)
  then have np: "\<not> passesGrep ?c [''A''] (Some ?re) ?bar"
    by (simp add: passesGrep_def exampleTest_def)
  have "generateTest ?c ?config exampleFixtures [''A''] (Some ?re) ?bar
      = Inr (grepAfter ?c [''A''] (Some ?re) ?bar, ?bar)"
    by (rule inst [THEN conjunct2, THEN conjunct1, THEN mp, OF np])
  with second have kept: "generateTest ?c ?config exampleFixtures [''A''] (Some ?re) ?bar
      = Inr (Some ?re, ?bar)"
    by (simp add: grepAfter_def exampleTest_def)
  have e: "exclusiveTests (SuiteDecl [] [] False [grepExampleSuite] []) = []"
    by (simp add: exclusiveTests_def grepExampleSuite_def exampleTest_def)
  have n: "list_all (\<lambda>child. \<not> suiteOnly child) (subSuites (SuiteDecl [] [] False [grepExampleSuite] []))"
    by (simp add: grepExampleSuite_def)
  have root: "stripRuns (SuiteDecl [] [] False [grepExamplePopulated] [])
      = SuiteDecl [] [] False (map stripRuns [grepExampleSuite]) []"
    by (rule inst [THEN conjunct2, THEN conjunct2, THEN mp,
          OF conjI [OF example_filtered_generation conjI [OF e n]]])
  from example_filtered_pass shape np kept example_filtered_generation e n root
  show ?thesis by blast
qed

subsection \<open>Determinism\<close>

text \<open>
  C8. What a pass pushes does not depend on what the run lists held before: the tree that
  \<^verbatim>\<open>generateTests\<close> returns is the pruned given tree with, appended test by test, the runs
  of the tree that a pass over the run-free suites returns (or the same error). Two passes
  over suites that differ in their run lists only therefore append the same runs, test by
  test, or fail alike. For a test that passes the filter and whose fixture names are
  registered, the configurations and the configuration strings of the appended runs are,
  in this order: for each configuration of the matrix in turn, one per repeat index,
  counting up.
\<close>

theorem generation_deterministic:
  "generateTests c fx suiteList config =
     map_sum id (appendRuns (snd (filterOnly (SuiteDecl [] [] False suiteList []))))
       (generateTests c fx (map stripRuns suiteList) config)
   \<and> (map stripRuns suiteList = map stripRuns suiteList' \<longrightarrow>
        (\<exists>fresh.
           generateTests c fx suiteList config =
             map_sum id (appendRuns (snd (filterOnly (SuiteDecl [] [] False suiteList [])))) fresh
           \<and> generateTests c fx suiteList' config =
             map_sum id (appendRuns (snd (filterOnly (SuiteDecl [] [] False suiteList' [])))) fresh))
   \<and> (passesGrep c path g test \<and> allRegistered (registrations fx) (resolveFixtures c (fn test)) \<longrightarrow>
        (\<exists>g' test'. generateTest c config fx path g test = Inr (g', test')
           \<and> map configuration (appended (runs test) test') =
               concat (map (replicate (repeatEach config))
                 (generatorConfigurations (matrix fx) (resolveFixtures c (fn test))))
           \<and> map configurationString (appended (runs test) test') =
               concat (map (\<lambda>cfg. map (\<lambda>i. serializeConfiguration c cfg @ ''#repeat-'' @ decimal i @ ''#'')
                                   [0..<repeatEach config])
                 (generatorConfigurations (matrix fx) (resolveFixtures c (fn test))))))"
proof (intro conjI impI)
  show "generateTests c fx suiteList config =
     map_sum id (appendRuns (snd (filterOnly (SuiteDecl [] [] False suiteList []))))
       (generateTests c fx (map stripRuns suiteList) config)"
    by (rule generateTests_stripped)
  show "\<exists>fresh.
           generateTests c fx suiteList config =
             map_sum id (appendRuns (snd (filterOnly (SuiteDecl [] [] False suiteList [])))) fresh
           \<and> generateTests c fx suiteList' config =
             map_sum id (appendRuns (snd (filterOnly (SuiteDecl [] [] False suiteList' [])))) fresh"
    if "map stripRuns suiteList = map stripRuns suiteList'"
    using that generateTests_stripped [of c fx suiteList config]
      generateTests_stripped [of c fx suiteList' config]
    by auto
  show "\<exists>g' test'. generateTest c config fx path g test = Inr (g', test')
           \<and> map configuration (appended (runs test) test') =
               concat (map (replicate (repeatEach config))
                 (generatorConfigurations (matrix fx) (resolveFixtures c (fn test))))
           \<and> map configurationString (appended (runs test) test') =
               concat (map (\<lambda>cfg. map (\<lambda>i. serializeConfiguration c cfg @ ''#repeat-'' @ decimal i @ ''#'')
                                   [0..<repeatEach config])
                 (generatorConfigurations (matrix fx) (resolveFixtures c (fn test))))"
    if "passesGrep c path g test \<and> allRegistered (registrations fx) (resolveFixtures c (fn test))"
    using that
    by (simp add: generateTest_passes populate_eq appended_def testRuns_strings testRuns_configurations)
qed

theorem generation_deterministic_witness:
  "map stripRuns
     [SuiteDecl ''A'' ''a.ts'' False []
        [\<lparr>title = ''t'', fn = Some [''browser'', ''page''], only = False,
           runs = [\<lparr>configuration = [], configurationString = ''old'', workerHash = ''old''\<rparr>]\<rparr>]]
   = map stripRuns
     [SuiteDecl ''A'' ''a.ts'' False [] [exampleTest ''t'' (Some [''browser'', ''page'']) False]]
   \<and> (\<exists>fresh.
        generateTests exampleCollaborators exampleFixtures
          [SuiteDecl ''A'' ''a.ts'' False []
             [\<lparr>title = ''t'', fn = Some [''browser'', ''page''], only = False,
                runs = [\<lparr>configuration = [], configurationString = ''old'', workerHash = ''old''\<rparr>]\<rparr>]]
          \<lparr>grep = None, repeatEach = 2\<rparr>
        = map_sum id (appendRuns (snd (filterOnly (SuiteDecl [] [] False
            [SuiteDecl ''A'' ''a.ts'' False []
               [\<lparr>title = ''t'', fn = Some [''browser'', ''page''], only = False,
                  runs = [\<lparr>configuration = [], configurationString = ''old'', workerHash = ''old''\<rparr>]\<rparr>]]
            [])))) fresh
        \<and> generateTests exampleCollaborators exampleFixtures
          [SuiteDecl ''A'' ''a.ts'' False [] [exampleTest ''t'' (Some [''browser'', ''page'']) False]]
          \<lparr>grep = None, repeatEach = 2\<rparr>
        = map_sum id (appendRuns (snd (filterOnly (SuiteDecl [] [] False
            [SuiteDecl ''A'' ''a.ts'' False [] [exampleTest ''t'' (Some [''browser'', ''page'']) False]]
            [])))) fresh)
   \<and> passesGrep exampleCollaborators [''A''] None (exampleTest ''t'' (Some [''browser'', ''page'']) False)
   \<and> allRegistered (registrations exampleFixtures) [''browser'', ''page'']
   \<and> (\<exists>g' test'.
        generateTest exampleCollaborators \<lparr>grep = None, repeatEach = 2\<rparr> exampleFixtures [''A''] None
          (exampleTest ''t'' (Some [''browser'', ''page'']) False) = Inr (g', test')
        \<and> map configuration (appended [] test') =
            [[(''browser'', ''chromium'')], [(''browser'', ''chromium'')],
             [(''browser'', ''firefox'')], [(''browser'', ''firefox'')]]
        \<and> map configurationString (appended [] test') =
            [''browser=chromium#repeat-0#'', ''browser=chromium#repeat-1#'',
             ''browser=firefox#repeat-0#'', ''browser=firefox#repeat-1#''])"
proof -
  let ?c = exampleCollaborators
  let ?config = "\<lparr>grep = None, repeatEach = 2\<rparr>"
  let ?t = "exampleTest ''t'' (Some [''browser'', ''page'']) False"
  let ?old = "\<lparr>title = ''t'', fn = Some [''browser'', ''page''], only = False,
           runs = [\<lparr>configuration = [], configurationString = ''old'', workerHash = ''old''\<rparr>]\<rparr>"
  let ?A = "[SuiteDecl ''A'' ''a.ts'' False [] [?old]]"
  let ?B = "[SuiteDecl ''A'' ''a.ts'' False [] [?t]]"
  note inst = generation_deterministic [of ?c exampleFixtures ?A ?config ?B "[''A'']" None ?t]
  have same: "map stripRuns ?A = map stripRuns ?B"
    by (simp add: exampleTest_def)
  have twice: "\<exists>fresh.
        generateTests ?c exampleFixtures ?A ?config =
          map_sum id (appendRuns (snd (filterOnly (SuiteDecl [] [] False ?A [])))) fresh
        \<and> generateTests ?c exampleFixtures ?B ?config =
          map_sum id (appendRuns (snd (filterOnly (SuiteDecl [] [] False ?B [])))) fresh"
    by (rule inst [THEN conjunct2, THEN conjunct1, THEN mp, OF same])
  have r: "resolveFixtures ?c (fn ?t) = [''browser'', ''page'']"
    by (simp add: resolveFixtures_def exampleTest_def exampleCollaborators_simps)
  have p: "passesGrep ?c [''A''] None ?t"
    by (simp add: passesGrep_def)
  have a: "allRegistered (registrations exampleFixtures) [''browser'', ''page'']"
    by (simp add: allRegistered_def exampleFixtures_simps)
  from a r have a': "allRegistered (registrations exampleFixtures) (resolveFixtures ?c (fn ?t))"
    by simp
  have cfgs: "generatorConfigurations (matrix exampleFixtures) [''browser'', ''page'']
      = [[(''browser'', ''chromium'')], [(''browser'', ''firefox'')]]"
    by (simp add: generatorConfigurations_def exampleFixtures_simps)
  have d: "decimal 0 = ''0''" "decimal (Suc 0) = ''1''"
    by (simp_all add: decimal.simps digitChar_def)
  have two: "[0..<2] = [0, Suc 0]" "replicate 2 x = [x, x]" for x :: "string Configuration"
    by (simp_all add: upt_rec numeral_2_eq_2)
  have "\<exists>g' test'. generateTest ?c ?config exampleFixtures [''A''] None ?t = Inr (g', test')
           \<and> map configuration (appended (runs ?t) test') =
               concat (map (replicate (repeatEach ?config))
                 (generatorConfigurations (matrix exampleFixtures) (resolveFixtures ?c (fn ?t))))
           \<and> map configurationString (appended (runs ?t) test') =
               concat (map (\<lambda>cfg. map (\<lambda>i. serializeConfiguration ?c cfg @ ''#repeat-'' @ decimal i @ ''#'')
                                   [0..<repeatEach ?config])
                 (generatorConfigurations (matrix exampleFixtures) (resolveFixtures ?c (fn ?t))))"
    by (rule inst [THEN conjunct2, THEN conjunct2, THEN mp, OF conjI [OF p a']])
  then have strings: "\<exists>g' test'.
        generateTest ?c ?config exampleFixtures [''A''] None ?t = Inr (g', test')
        \<and> map configuration (appended [] test') =
            [[(''browser'', ''chromium'')], [(''browser'', ''chromium'')],
             [(''browser'', ''firefox'')], [(''browser'', ''firefox'')]]
        \<and> map configurationString (appended [] test') =
            [''browser=chromium#repeat-0#'', ''browser=chromium#repeat-1#'',
             ''browser=firefox#repeat-0#'', ''browser=firefox#repeat-1#'']"
    by (simp add: resolveFixtures_def cfgs d two serializeConfiguration_def
        exampleCollaborators_simps exampleTest_def)
  from same twice p a strings show ?thesis by blast
qed

end
